theory Spec2Isabelle
  imports Main "HOL-Library.Char_ord" "HOL-Library.List_Lexorder" "HOL-Library.Sublist"
    "HOL-Library.AList" "HOL-Library.Multiset"
begin

section \<open>Blob storage layer: local and networked backends\<close>

text \<open>
  A shallow embedding of \<^verbatim>\<open>internal/blob/filesystem.go\<close> (FileSystemStore) and of
  \<^verbatim>\<open>internal/blob/blob.go\<close> (S3Store). Go strings are byte strings: \<open>string\<close>.
  The operating system and the remote object service are outside the repository; they are
  modelled as explicit state (a file tree, a bucket) with a log of the calls made and an
  answer function that can make any call fail. The store's mutex is not modelled: every operation
  runs to completion on the state it is given.
\<close>

subsection \<open>Go library functions on strings (strings, path/filepath on Unix)\<close>

text \<open>\<^verbatim>\<open>strings.Split(s, "/")\<close>: the fields between separators; never empty.\<close>

fun split_on :: "char \<Rightarrow> string \<Rightarrow> string list" where
  "split_on c [] = [[]]"
| "split_on c (x # xs) =
     (if x = c then [] # split_on c xs
      else (case split_on c xs of [] \<Rightarrow> [[x]] | y # ys \<Rightarrow> (x # y) # ys))"

text \<open>\<^verbatim>\<open>strings.Join(segs, "/")\<close>.\<close>

fun join_slash :: "string list \<Rightarrow> string" where
  "join_slash [] = []"
| "join_slash [s] = s"
| "join_slash (s # t # ss) = s @ CHR ''/'' # join_slash (t # ss)"

text \<open>
  \<^verbatim>\<open>filepath.Clean\<close>: empty elements and \<^verbatim>\<open>.\<close> are dropped, an inner \<^verbatim>\<open>..\<close>
  removes the element before it, \<^verbatim>\<open>..\<close> at the start of a rooted path is dropped, and the
  empty result is \<^verbatim>\<open>.\<close>. The output elements are kept in reverse while scanning.
\<close>

definition clean_step :: "bool \<Rightarrow> string list \<Rightarrow> string \<Rightarrow> string list" where
  "clean_step rooted out seg =
     (if seg = [] \<or> seg = ''.'' then out
      else if seg = ''..'' then
        (case out of
           [] \<Rightarrow> if rooted then [] else [seg]
         | s # rest \<Rightarrow> if s = ''..'' then seg # out else rest)
      else seg # out)"

definition IsAbs :: "string \<Rightarrow> bool" where
  "IsAbs p = prefix ''/'' p"

definition clean_segs :: "string \<Rightarrow> string list" where
  "clean_segs p = rev (foldl (clean_step (IsAbs p)) [] (split_on CHR ''/'' p))"

definition Clean :: "string \<Rightarrow> string" where
  "Clean p =
     (if p = [] then ''.''
      else if IsAbs p then CHR ''/'' # join_slash (clean_segs p)
      else if clean_segs p = [] then ''.''
      else join_slash (clean_segs p))"

text \<open>\<^verbatim>\<open>filepath.Join(a, b)\<close> for two elements: empty elements are ignored, the rest is
  joined with a separator and cleaned.\<close>

definition Join :: "string \<Rightarrow> string \<Rightarrow> string" where
  "Join a b =
     (if a = [] \<and> b = [] then []
      else if a = [] then Clean b
      else if b = [] then Clean a
      else Clean (a @ CHR ''/'' # b))"

text \<open>\<^verbatim>\<open>filepath.Dir\<close>: everything up to the last separator, cleaned.\<close>

definition Dir :: "string \<Rightarrow> string" where
  "Dir p = Clean (rev (dropWhile (\<lambda>c. c \<noteq> CHR ''/'') (rev p)))"

text \<open>\<^verbatim>\<open>filepath.Ext\<close>: the suffix from the last dot of the last element, or empty.\<close>

definition Ext :: "string \<Rightarrow> string" where
  "Ext p =
     (let last_elem = rev (takeWhile (\<lambda>c. c \<noteq> CHR ''/'') (rev p))
      in if CHR ''.'' \<in> set last_elem
         then CHR ''.'' # rev (takeWhile (\<lambda>c. c \<noteq> CHR ''.'') (rev last_elem))
         else [])"

text \<open>
  \<^verbatim>\<open>strings.ToLower\<close> on a byte string in UTF-8. The ASCII capitals are lowered, and so
  are the two letters outside ASCII whose lower case is an ASCII letter: U+0130 (bytes
  \<^verbatim>\<open>C4 B0\<close>, lower case \<^verbatim>\<open>i\<close>) and U+212A (bytes \<^verbatim>\<open>E2 84 AA\<close>, lower case \<^verbatim>\<open>k\<close>).
  Every other byte is kept: the lower case of any other letter outside ASCII is outside
  ASCII as well, so a look-up of the result among ASCII strings, the one use below, is
  as in Go.
\<close>

definition lower_char :: "char \<Rightarrow> char" where
  "lower_char c =
     (let n = (of_char c :: nat) in if 65 \<le> n \<and> n \<le> 90 then char_of (n + 32) else c)"

fun ToLower :: "string \<Rightarrow> string" where
  "ToLower [] = []"
| "ToLower (c # cs) =
     (if prefix [CHR 0xC4, CHR 0xB0] (c # cs) then CHR ''i'' # ToLower (drop 1 cs)
      else if prefix [CHR 0xE2, CHR 0x84, CHR 0xAA] (c # cs) then CHR ''k'' # ToLower (drop 2 cs)
      else lower_char c # ToLower cs)"

text \<open>\<^verbatim>\<open>filepath.Rel(base, p)\<close> for a path \<open>p\<close> found by walking \<open>base\<close>, on path
  elements: the elements below the base, or \<^verbatim>\<open>.\<close> for the base itself.\<close>

definition Rel :: "string list \<Rightarrow> string list \<Rightarrow> string" where
  "Rel base p =
     (let r = drop (length base) p in if r = [] then ''.'' else join_slash r)"

text \<open>The decimal digits of a number, as \<^verbatim>\<open>os.CreateTemp\<close> writes its random part.\<close>

fun digits :: "nat \<Rightarrow> string" where
  "digits n =
     (if n < 10 then [char_of (48 + n)]
      else digits (n div 10) @ [char_of (48 + n mod 10)])"

declare digits.simps [simp del]

subsection \<open>Errors\<close>

text \<open>
  The sentinel errors of \<^verbatim>\<open>internal/domain\<close> that the blob layer uses, and the two
  errors of package \<^verbatim>\<open>context\<close>.
\<close>

datatype ctx_error = Canceled | DeadlineExceeded

datatype sentinel =
    ErrInvalidBlobKey | ErrInvalidInput | ErrBlobNotFound
  | ErrBlobUploadFailed | ErrBlobDownloadFailed | ErrBlobDeleteFailed
  | Context ctx_error

datatype os_error = ENOENT | ENOTDIR | EISDIR | ENOTEMPTY | EEXIST | EACCES | EIO | ENOSPC | EBUSY

text \<open>
  Errors of the AWS SDK: an API error with its code, the two typed errors (which are API
  errors too, with the codes \<^verbatim>\<open>NotFound\<close> and \<^verbatim>\<open>NoSuchKey\<close>), any other error,
  and an SDK error wrapping another one.
\<close>

datatype sdk_error =
    APIError string
  | TypedNotFound
  | TypedNoSuchKey
  | OtherSdk string
  | SdkWrap string sdk_error

datatype cause =
    OsCause os_error
  | SdkCause sdk_error
  | SinkCause
  | ReadCause
  | Msg string
  | Count nat string

text \<open>
  The error values the store returns:
  \<^item> \<open>Plain s\<close>: the sentinel itself (also what \<^verbatim>\<open>ctx.Err()\<close> returns);
  \<^item> \<open>Annotated s c\<close>: \<^verbatim>\<open>fmt.Errorf("%w: %v", s, c)\<close>, whose chain holds the sentinel and
    whose message holds the text of the cause;
  \<^item> \<open>Passed m c\<close>: \<^verbatim>\<open>fmt.Errorf(m + ": %w", c)\<close>, whose chain holds the cause itself.
\<close>

datatype error =
    Plain sentinel
  | Annotated sentinel cause
  | Passed string cause

text \<open>\<^verbatim>\<open>errors.Is(err, s)\<close> for a sentinel \<open>s\<close>. An operating-system or SDK error is
  never one of the sentinels above.\<close>

fun err_is :: "error \<Rightarrow> sentinel \<Rightarrow> bool" where
  "err_is (Plain s) t = (s = t)"
| "err_is (Annotated s c) t = (s = t)"
| "err_is (Passed m c) t = False"

text \<open>Whether the chain of the error holds an SDK error as it came from the backend.\<close>

fun raw_backend :: "error \<Rightarrow> bool" where
  "raw_backend (Passed m (SdkCause e)) = True"
| "raw_backend e = False"

text \<open>The cause an error carries, in its chain or in its message.\<close>

fun cause_of :: "error \<Rightarrow> cause option" where
  "cause_of (Plain s) = None"
| "cause_of (Annotated s c) = Some c"
| "cause_of (Passed m c) = Some c"

text \<open>\<^verbatim>\<open>errors.Is(err, fs.ErrNotExist)\<close> on an error of the operating system.\<close>

definition is_not_exist :: "os_error \<Rightarrow> bool" where
  "is_not_exist e = (e = ENOENT)"

subsection \<open>Contexts\<close>

text \<open>
  A context is done from some moment on. Time is counted in calls to the outside world:
  \<open>done_at = Some t\<close> says that the context is done once \<open>t\<close> calls have been logged.
\<close>

record ctx =
  done_at :: "nat option"
  done_err :: ctx_error

definition background :: ctx where
  "background = \<lparr> done_at = None, done_err = Canceled \<rparr>"

definition ctx_done :: "ctx \<Rightarrow> nat \<Rightarrow> ctx_error option" where
  "ctx_done c t =
     (case done_at c of
        None \<Rightarrow> None
      | Some t0 \<Rightarrow> if t0 \<le> t then Some (done_err c) else None)"

definition ctx_Err :: "ctx \<Rightarrow> nat \<Rightarrow> error option" where
  "ctx_Err c t = map_option (\<lambda>e. Plain (Context e)) (ctx_done c t)"

subsection \<open>The file system\<close>

text \<open>
  A file tree: the nodes by their absolute path, a path being its list of elements. A file
  has its bytes and the time of its last write. The root is a directory.
\<close>

datatype node = File string nat | Directory

type_synonym path = "string list"

type_synonym tree = "(path \<times> node) list"

datatype syscall =
    SysMkdirAll string
  | SysCreateTemp string
  | SysCreate string
  | SysWrite string
  | SysClose string
  | SysRename string string
  | SysRemove string
  | SysOpen string
  | SysRead string
  | SysStat string
  | SysReadDir path
  | SysLstat path

text \<open>
  What the outside world answers to the \<open>n\<close>-th call: a failure or none, how many bytes a
  failing write still wrote, and the random number of a temporary file name.
\<close>

record answer =
  failure :: "os_error option"
  short :: nat
  rnd :: nat

record world =
  tree :: tree
  log :: "syscall list"
  answers :: "nat \<Rightarrow> answer"

definition now :: "world \<Rightarrow> nat" where
  "now w = length (log w)"

definition ask :: "world \<Rightarrow> answer" where
  "ask w = answers w (now w)"

definition logged :: "syscall \<Rightarrow> world \<Rightarrow> world" where
  "logged c w = w\<lparr> log := log w @ [c] \<rparr>"

text \<open>A world where no call fails unless the file tree itself makes it fail.\<close>

definition healthy :: "world \<Rightarrow> bool" where
  "healthy w = (\<forall>n. failure (answers w n) = None)"

text \<open>The elements of a clean absolute path name.\<close>

definition segs_of :: "string \<Rightarrow> path" where
  "segs_of name = filter (\<lambda>s. s \<noteq> []) (split_on CHR ''/'' name)"

definition node_at :: "tree \<Rightarrow> path \<Rightarrow> node option" where
  "node_at t p = (if p = [] then Some Directory else map_of t p)"

definition is_file :: "node option \<Rightarrow> bool" where
  "is_file n = (case n of Some (File c m) \<Rightarrow> True | _ \<Rightarrow> False)"

text \<open>The error for a path with no node: a file on the way is \<^verbatim>\<open>ENOTDIR\<close>.\<close>

definition missing :: "tree \<Rightarrow> path \<Rightarrow> os_error" where
  "missing t p =
     (if list_ex (\<lambda>q. is_file (node_at t q)) (butlast (prefixes p)) then ENOTDIR else ENOENT)"

definition has_children :: "tree \<Rightarrow> path \<Rightarrow> bool" where
  "has_children t p = list_ex (\<lambda>(q, n). q \<noteq> [] \<and> butlast q = p) t"

fun mkdirs :: "path list \<Rightarrow> tree \<Rightarrow> os_error option \<times> tree" where
  "mkdirs [] t = (None, t)"
| "mkdirs (d # ds) t =
     (case node_at t d of
        None \<Rightarrow> mkdirs ds (AList.update d Directory t)
      | Some Directory \<Rightarrow> mkdirs ds t
      | Some (File c m) \<Rightarrow> (Some ENOTDIR, t))"

text \<open>\<^verbatim>\<open>os.MkdirAll\<close>: the directory and every missing parent, from the root down.\<close>

definition os_MkdirAll :: "string \<Rightarrow> world \<Rightarrow> os_error option \<times> world" where
  "os_MkdirAll name w =
     (let a = ask w; w1 = logged (SysMkdirAll name) w in
      case failure a of
        Some e \<Rightarrow> (Some e, w1)
      | None \<Rightarrow>
          (case mkdirs (prefixes (segs_of name)) (tree w1) of
             (r, t) \<Rightarrow> (r, w1\<lparr> tree := t \<rparr>)))"

text \<open>
  \<^verbatim>\<open>os.CreateTemp(dir, ".tmp-*")\<close>: a new empty file whose name is the pattern with the
  star replaced by a random number. The real function tries further numbers when the name
  is taken; the number in the answer stands for the one finally tried.
\<close>

definition temp_name :: "string \<Rightarrow> nat \<Rightarrow> string" where
  "temp_name dir r =
     (if dir \<noteq> [] \<and> last dir = CHR ''/'' then dir @ ''.tmp-'' @ digits r
      else dir @ ''/'' @ ''.tmp-'' @ digits r)"

definition os_CreateTemp :: "string \<Rightarrow> world \<Rightarrow> (os_error + string) \<times> world" where
  "os_CreateTemp dir w =
     (let a = ask w; w1 = logged (SysCreateTemp dir) w; name = temp_name dir (rnd a) in
      case failure a of
        Some e \<Rightarrow> (Inl e, w1)
      | None \<Rightarrow>
          (case node_at (tree w1) (segs_of dir) of
             None \<Rightarrow> (Inl (missing (tree w1) (segs_of dir)), w1)
           | Some (File c m) \<Rightarrow> (Inl ENOTDIR, w1)
           | Some Directory \<Rightarrow>
               if node_at (tree w1) (segs_of name) \<noteq> None then (Inl EEXIST, w1)
               else (Inr name,
                     w1\<lparr> tree := AList.update (segs_of name) (File [] (now w)) (tree w1) \<rparr>)))"

text \<open>\<^verbatim>\<open>os.Create\<close>: a new empty file, or the existing file truncated.\<close>

definition os_Create :: "string \<Rightarrow> world \<Rightarrow> os_error option \<times> world" where
  "os_Create name w =
     (let a = ask w; w1 = logged (SysCreate name) w; p = segs_of name in
      case failure a of
        Some e \<Rightarrow> (Some e, w1)
      | None \<Rightarrow>
          (case node_at (tree w1) p of
             Some Directory \<Rightarrow> (Some EISDIR, w1)
           | Some (File c m) \<Rightarrow>
               (None, w1\<lparr> tree := AList.update p (File [] (now w)) (tree w1) \<rparr>)
           | None \<Rightarrow>
               (case node_at (tree w1) (butlast p) of
                  Some Directory \<Rightarrow>
                    (None, w1\<lparr> tree := AList.update p (File [] (now w)) (tree w1) \<rparr>)
                | Some (File c m) \<Rightarrow> (Some ENOTDIR, w1)
                | None \<Rightarrow> (Some (missing (tree w1) p), w1))))"

text \<open>Writing bytes to an open file: all of them, or on a failure the first few.\<close>

definition os_Write :: "string \<Rightarrow> string \<Rightarrow> world \<Rightarrow> (os_error + nat) \<times> world" where
  "os_Write name bytes w =
     (let a = ask w; w1 = logged (SysWrite name) w; p = segs_of name in
      case failure a of
        Some e \<Rightarrow>
          (Inl e, w1\<lparr> tree := AList.update p (File (take (short a) bytes) (now w)) (tree w1) \<rparr>)
      | None \<Rightarrow>
          (Inr (length bytes), w1\<lparr> tree := AList.update p (File bytes (now w)) (tree w1) \<rparr>))"

definition os_Close :: "string \<Rightarrow> world \<Rightarrow> os_error option \<times> world" where
  "os_Close name w = (failure (ask w), logged (SysClose name) w)"

text \<open>\<^verbatim>\<open>os.Rename\<close> of a file: one step that replaces a file at the new name. A
  directory at the new name is refused with \<^verbatim>\<open>EEXIST\<close>.\<close>

definition os_Rename :: "string \<Rightarrow> string \<Rightarrow> world \<Rightarrow> os_error option \<times> world" where
  "os_Rename old new w =
     (let a = ask w; w1 = logged (SysRename old new) w; p = segs_of old; q = segs_of new in
      case failure a of
        Some e \<Rightarrow> (Some e, w1)
      | None \<Rightarrow>
          (case node_at (tree w1) p of
             None \<Rightarrow> (Some (missing (tree w1) p), w1)
           | Some n \<Rightarrow>
               if p = q then (None, w1)
               else if node_at (tree w1) q = Some Directory then (Some EEXIST, w1)
               else if node_at (tree w1) (butlast q) \<noteq> Some Directory
                 then (Some (missing (tree w1) q), w1)
               else (None, w1\<lparr> tree := AList.update q n (AList.delete p (tree w1)) \<rparr>)))"

text \<open>\<^verbatim>\<open>os.Remove\<close>: a file, or a directory with nothing in it.\<close>

definition os_Remove :: "string \<Rightarrow> world \<Rightarrow> os_error option \<times> world" where
  "os_Remove name w =
     (let a = ask w; w1 = logged (SysRemove name) w; p = segs_of name in
      case failure a of
        Some e \<Rightarrow> (Some e, w1)
      | None \<Rightarrow>
          (if p = [] then (Some EBUSY, w1)
           else case node_at (tree w1) p of
             None \<Rightarrow> (Some (missing (tree w1) p), w1)
           | Some (File c m) \<Rightarrow> (None, w1\<lparr> tree := AList.delete p (tree w1) \<rparr>)
           | Some Directory \<Rightarrow>
               if has_children (tree w1) p then (Some ENOTEMPTY, w1)
               else (None, w1\<lparr> tree := AList.delete p (tree w1) \<rparr>)))"

text \<open>\<^verbatim>\<open>os.Open\<close> gives the node as the open file; \<^verbatim>\<open>os.Stat\<close> gives it as the
  file information.\<close>

definition os_Open :: "string \<Rightarrow> world \<Rightarrow> (os_error + node) \<times> world" where
  "os_Open name w =
     (let a = ask w; w1 = logged (SysOpen name) w; p = segs_of name in
      case failure a of
        Some e \<Rightarrow> (Inl e, w1)
      | None \<Rightarrow>
          (case node_at (tree w1) p of
             None \<Rightarrow> (Inl (missing (tree w1) p), w1)
           | Some n \<Rightarrow> (Inr n, w1)))"

definition os_Stat :: "string \<Rightarrow> world \<Rightarrow> (os_error + node) \<times> world" where
  "os_Stat name w =
     (let a = ask w; w1 = logged (SysStat name) w; p = segs_of name in
      case failure a of
        Some e \<Rightarrow> (Inl e, w1)
      | None \<Rightarrow>
          (case node_at (tree w1) p of
             None \<Rightarrow> (Inl (missing (tree w1) p), w1)
           | Some n \<Rightarrow> (Inr n, w1)))"

text \<open>\<^verbatim>\<open>io.ReadAll\<close> of an open file; reading a directory fails.\<close>

definition os_ReadAll :: "string \<Rightarrow> node \<Rightarrow> world \<Rightarrow> (os_error + string) \<times> world" where
  "os_ReadAll name h w =
     (let a = ask w; w1 = logged (SysRead name) w in
      case failure a of
        Some e \<Rightarrow> (Inl e, w1)
      | None \<Rightarrow> (case h of Directory \<Rightarrow> (Inl EISDIR, w1) | File c m \<Rightarrow> (Inr c, w1)))"

text \<open>Reading the entries of a directory, and the information of an entry, during a walk.\<close>

definition os_ReadDir :: "path \<Rightarrow> world \<Rightarrow> os_error option \<times> world" where
  "os_ReadDir p w = (failure (ask w), logged (SysReadDir p) w)"

definition os_Lstat :: "path \<Rightarrow> world \<Rightarrow> os_error option \<times> world" where
  "os_Lstat p w = (failure (ask w), logged (SysLstat p) w)"

subsection \<open>The data of the store contract\<close>

record ObjectInfo =
  Key :: string
  Size :: nat
  ContentType :: string
  ETag :: string
  LastModified :: nat
  Metadata :: "(string \<times> string) list"

text \<open>An \<^verbatim>\<open>io.Reader\<close>: the bytes it delivers, and whether it then fails instead of
  reporting the end of the stream.\<close>

record reader =
  content :: string
  read_fails :: bool

record UploadInput =
  UKey :: string
  Body :: "reader option"
  UContentType :: string
  UMetadata :: "(string \<times> string) list"

record UploadOutput =
  Location :: string
  VersionID :: string
  UETag :: string

text \<open>\<open>MaxKeys\<close> is an \<^verbatim>\<open>int32\<close>; its conversion to \<^verbatim>\<open>int\<close> is exact.\<close>

record ListInput =
  Prefix :: string
  MaxKeys :: int
  StartAfter :: string

record ListOutput =
  Objects :: "ObjectInfo list"
  IsTruncated :: bool
  NextMarker :: string

text \<open>An \<^verbatim>\<open>io.WriterAt\<close> of the caller: a buffer, and how many bytes it takes before it
  fails (\<open>None\<close>: never).\<close>

record sink =
  buf :: string
  room :: "nat option"

definition WriteAt :: "sink \<Rightarrow> string \<Rightarrow> nat \<Rightarrow> (nat \<times> bool) \<times> sink" where
  "WriteAt s bytes off =
     (let put = (\<lambda>d. take off (buf s @ replicate (off - length (buf s)) (CHR 0x00)) @ d
                      @ drop (off + length d) (buf s)) in
      case room s of
        None \<Rightarrow> ((length bytes, False), s\<lparr> buf := put bytes \<rparr>)
      | Some r \<Rightarrow>
          if length bytes \<le> r then ((length bytes, False), s\<lparr> buf := put bytes \<rparr>)
          else ((r, True), s\<lparr> buf := put (take r bytes) \<rparr>))"

subsection \<open>FileSystemStore\<close>

record FileSystemStore =
  basePath :: string

definition zero_info :: ObjectInfo where
  "zero_info = \<lparr> Key = [], Size = 0, ContentType = [], ETag = [], LastModified = 0,
                  Metadata = [] \<rparr>"

definition contentTypes :: "(string \<times> string) list" where
  "contentTypes =
     [(''.html'', ''text/html''), (''.htm'', ''text/html''), (''.css'', ''text/css''),
      (''.js'', ''application/javascript''), (''.json'', ''application/json''),
      (''.xml'', ''application/xml''), (''.txt'', ''text/plain''), (''.md'', ''text/markdown''),
      (''.pdf'', ''application/pdf''), (''.zip'', ''application/zip''),
      (''.tar'', ''application/x-tar''), (''.gz'', ''application/gzip''),
      (''.png'', ''image/png''), (''.jpg'', ''image/jpeg''), (''.jpeg'', ''image/jpeg''),
      (''.gif'', ''image/gif''), (''.svg'', ''image/svg+xml''), (''.webp'', ''image/webp''),
      (''.ico'', ''image/x-icon''), (''.mp3'', ''audio/mpeg''), (''.mp4'', ''video/mp4''),
      (''.webm'', ''video/webm''), (''.wasm'', ''application/wasm'')]"

definition detectContentType :: "string \<Rightarrow> string" where
  "detectContentType filename =
     (case map_of contentTypes (ToLower (Ext filename)) of
        Some ct \<Rightarrow> ct
      | None \<Rightarrow> ''application/octet-stream'')"

definition fullPath :: "FileSystemStore \<Rightarrow> string \<Rightarrow> error + string" where
  "fullPath f key =
     (if key = [] then Inl (Plain ErrInvalidBlobKey)
      else let cleanKey = Clean key in
        if prefix ''..'' cleanKey \<or> IsAbs cleanKey
        then Inl (Annotated ErrInvalidBlobKey (Msg ''invalid key path''))
        else Inr (Join (basePath f) cleanKey))"

text \<open>\<^verbatim>\<open>io.Copy\<close> from a reader into the file \<open>name\<close>.\<close>

definition io_Copy :: "string \<Rightarrow> reader \<Rightarrow> world \<Rightarrow> (cause + nat) \<times> world" where
  "io_Copy name r w =
     (case os_Write name (content r) w of
        (Inl e, w1) \<Rightarrow> (Inl (OsCause e), w1)
      | (Inr n, w1) \<Rightarrow> if read_fails r then (Inl ReadCause, w1) else (Inr n, w1))"

text \<open>The deferred function of \<open>Upload\<close>: close the temporary file and remove it, whatever
  the two calls answer.\<close>

definition upload_cleanup :: "string \<Rightarrow> world \<Rightarrow> world" where
  "upload_cleanup tmpPath w = snd (os_Remove tmpPath (snd (os_Close tmpPath w)))"

text \<open>\<open>Upload\<close> from the copy into the temporary file on. The hash function is
  \<^verbatim>\<open>hex.EncodeToString\<close> of \<^verbatim>\<open>crypto/md5\<close>, a parameter here.\<close>

definition upload_write ::
  "(string \<Rightarrow> string) \<Rightarrow> string \<Rightarrow> string \<Rightarrow> reader \<Rightarrow> world \<Rightarrow> (error + UploadOutput) \<times> world"
where
  "upload_write md5hex tmpPath fp body w =
     (case io_Copy tmpPath body w of
        (Inl e, w1) \<Rightarrow> (Inl (Annotated ErrBlobUploadFailed e), w1)
      | (Inr written, w1) \<Rightarrow>
          (case os_Close tmpPath w1 of
             (Some e, w2) \<Rightarrow> (Inl (Annotated ErrBlobUploadFailed (OsCause e)), w2)
           | (None, w2) \<Rightarrow>
               (case os_Rename tmpPath fp w2 of
                  (Some e, w3) \<Rightarrow> (Inl (Annotated ErrBlobUploadFailed (OsCause e)), w3)
                | (None, w3) \<Rightarrow>
                    (Inr \<lparr> Location = fp, VersionID = [], UETag = md5hex (content body) \<rparr>,
                     w3))))"

definition Upload ::
  "(string \<Rightarrow> string) \<Rightarrow> FileSystemStore \<Rightarrow> ctx \<Rightarrow> UploadInput \<Rightarrow> world
     \<Rightarrow> (error + UploadOutput) \<times> world"
where
  "Upload md5hex f c input w =
     (if UKey input = [] then (Inl (Plain ErrInvalidBlobKey), w)
      else case Body input of
        None \<Rightarrow> (Inl (Annotated ErrInvalidInput (Msg ''body is required'')), w)
      | Some body \<Rightarrow>
          (case fullPath f (UKey input) of
             Inl e \<Rightarrow> (Inl e, w)
           | Inr fp \<Rightarrow>
               (case os_MkdirAll (Dir fp) w of
                  (Some e, w1) \<Rightarrow> (Inl (Annotated ErrBlobUploadFailed (OsCause e)), w1)
                | (None, w1) \<Rightarrow>
                    (case ctx_Err c (now w1) of
                       Some e \<Rightarrow> (Inl e, w1)
                     | None \<Rightarrow>
                         (case os_CreateTemp (Dir fp) w1 of
                            (Inl e, w2) \<Rightarrow>
                              (Inl (Annotated ErrBlobUploadFailed (OsCause e)), w2)
                          | (Inr tmpPath, w2) \<Rightarrow>
                              (case upload_write md5hex tmpPath fp body w2 of
                                 (r, w3) \<Rightarrow> (r, upload_cleanup tmpPath w3)))))))"

text \<open>\<open>Download\<close> returns the number of bytes and the error (\<open>None\<close> for \<^verbatim>\<open>nil\<close>), and
  leaves the caller's sink as written.\<close>

definition download_read ::
  "ctx \<Rightarrow> string \<Rightarrow> node \<Rightarrow> sink \<Rightarrow> world \<Rightarrow> (nat \<times> error option) \<times> sink \<times> world"
where
  "download_read c fp file s w =
     (case ctx_Err c (now w) of
        Some e \<Rightarrow> ((0, Some e), s, w)
      | None \<Rightarrow>
          (case os_ReadAll fp file w of
             (Inl e, w1) \<Rightarrow> ((0, Some (Annotated ErrBlobDownloadFailed (OsCause e))), s, w1)
           | (Inr bytes, w1) \<Rightarrow>
               (case WriteAt s bytes 0 of
                  ((n, True), s') \<Rightarrow>
                    ((n, Some (Annotated ErrBlobDownloadFailed SinkCause)), s', w1)
                | ((n, False), s') \<Rightarrow> ((n, None), s', w1))))"

definition Download ::
  "FileSystemStore \<Rightarrow> ctx \<Rightarrow> string \<Rightarrow> sink \<Rightarrow> world
     \<Rightarrow> (nat \<times> error option) \<times> sink \<times> world"
where
  "Download f c key s w =
     (case fullPath f key of
        Inl e \<Rightarrow> ((0, Some e), s, w)
      | Inr fp \<Rightarrow>
          (case os_Open fp w of
             (Inl e, w1) \<Rightarrow>
               if is_not_exist e then ((0, Some (Plain ErrBlobNotFound)), s, w1)
               else ((0, Some (Annotated ErrBlobDownloadFailed (OsCause e))), s, w1)
           | (Inr file, w1) \<Rightarrow>
               (case download_read c fp file s w1 of
                  (r, s', w2) \<Rightarrow> (r, s', snd (os_Close fp w2)))))"

text \<open>\<open>GetObject\<close> returns the open file as a reader: the bytes of a file; reading a
  directory fails.\<close>

definition reader_of :: "node \<Rightarrow> reader" where
  "reader_of n =
     (case n of
        File bytes m \<Rightarrow> \<lparr> content = bytes, read_fails = False \<rparr>
      | Directory \<Rightarrow> \<lparr> content = [], read_fails = True \<rparr>)"

definition GetObject ::
  "FileSystemStore \<Rightarrow> ctx \<Rightarrow> string \<Rightarrow> world \<Rightarrow> (error + reader) \<times> world"
where
  "GetObject f c key w =
     (case fullPath f key of
        Inl e \<Rightarrow> (Inl e, w)
      | Inr fp \<Rightarrow>
          (case os_Open fp w of
             (Inl e, w1) \<Rightarrow>
               if is_not_exist e then (Inl (Plain ErrBlobNotFound), w1)
               else (Inl (Annotated ErrBlobDownloadFailed (OsCause e)), w1)
           | (Inr file, w1) \<Rightarrow> (Inr (reader_of file), w1)))"

definition HeadObject ::
  "FileSystemStore \<Rightarrow> ctx \<Rightarrow> string \<Rightarrow> world \<Rightarrow> (error + ObjectInfo) \<times> world"
where
  "HeadObject f c key w =
     (case fullPath f key of
        Inl e \<Rightarrow> (Inl e, w)
      | Inr fp \<Rightarrow>
          (case os_Stat fp w of
             (Inl e, w1) \<Rightarrow>
               if is_not_exist e then (Inl (Plain ErrBlobNotFound), w1)
               else (Inl (Passed ''failed to get object info'' (OsCause e)), w1)
           | (Inr Directory, w1) \<Rightarrow> (Inl (Plain ErrBlobNotFound), w1)
           | (Inr (File bytes m), w1) \<Rightarrow>
               (Inr (zero_info\<lparr> Key := key, Size := length bytes,
                       ContentType := detectContentType key, LastModified := m \<rparr>), w1)))"

definition Delete :: "FileSystemStore \<Rightarrow> ctx \<Rightarrow> string \<Rightarrow> world \<Rightarrow> error option \<times> world" where
  "Delete f c key w =
     (case fullPath f key of
        Inl e \<Rightarrow> (Some e, w)
      | Inr fp \<Rightarrow>
          (case os_Remove fp w of
             (Some e, w1) \<Rightarrow>
               if is_not_exist e then (None, w1)
               else (Some (Annotated ErrBlobDeleteFailed (OsCause e)), w1)
           | (None, w1) \<Rightarrow> (None, w1)))"

text \<open>The loop of \<open>DeleteMultiple\<close>: \<open>keys\<close> is the whole input, \<open>rest\<close> the keys still to
  visit, \<open>failedKeys\<close> the failures so far.\<close>

fun delete_loop ::
  "FileSystemStore \<Rightarrow> ctx \<Rightarrow> string list \<Rightarrow> string list \<Rightarrow> string list \<Rightarrow> world
     \<Rightarrow> (string list \<times> error option) \<times> world"
where
  "delete_loop f c keys [] failedKeys w =
     (if length failedKeys > 0
      then ((failedKeys,
             Some (Annotated ErrBlobDeleteFailed
                     (Count (length failedKeys) ''files failed to delete''))), w)
      else (([], None), w))"
| "delete_loop f c keys (key # rest) failedKeys w =
     (case ctx_Err c (now w) of
        Some e \<Rightarrow> ((failedKeys @ keys, Some e), w)
      | None \<Rightarrow>
          (case Delete f c key w of
             (Some e, w1) \<Rightarrow>
               if \<not> err_is e ErrBlobNotFound
               then delete_loop f c keys rest (failedKeys @ [key]) w1
               else delete_loop f c keys rest failedKeys w1
           | (None, w1) \<Rightarrow> delete_loop f c keys rest failedKeys w1))"

definition DeleteMultiple ::
  "FileSystemStore \<Rightarrow> ctx \<Rightarrow> string list \<Rightarrow> world \<Rightarrow> (string list \<times> error option) \<times> world"
where
  "DeleteMultiple f c keys w =
     (if length keys = 0 then (([], None), w) else delete_loop f c keys keys [] w)"

text \<open>
  \<^verbatim>\<open>filepath.WalkDir\<close> visits the base and everything below it in lexical order, which
  is the order of the paths as lists of elements: a directory before its entries.
\<close>

definition walk_order :: "path \<Rightarrow> tree \<Rightarrow> (path \<times> node) list" where
  "walk_order base t =
     (if base = [] then [([], Directory)] else [])
     @ sort_key fst (filter (\<lambda>(p, n). prefix base p) t)"

text \<open>
  The callback of \<open>List\<close>, run over the visits that are left. A directory is read (a
  failure ends the walk with that error) and skipped. At a file the context is looked at,
  then the two filters, then the information of the entry (a failure skips the file).
\<close>

fun walk ::
  "ctx \<Rightarrow> path \<Rightarrow> string \<Rightarrow> string \<Rightarrow> (path \<times> node) list \<Rightarrow> ObjectInfo list \<Rightarrow> world
     \<Rightarrow> ((os_error + ctx_error) option \<times> ObjectInfo list) \<times> world"
where
  "walk c base pre startAfter [] objects w = ((None, objects), w)"
| "walk c base pre startAfter ((p, Directory) # visits) objects w =
     (case os_ReadDir p w of
        (Some e, w1) \<Rightarrow> ((Some (Inl e), objects), w1)
      | (None, w1) \<Rightarrow> walk c base pre startAfter visits objects w1)"
| "walk c base pre startAfter ((p, File bytes m) # visits) objects w =
     (case ctx_done c (now w) of
        Some e \<Rightarrow> ((Some (Inr e), objects), w)
      | None \<Rightarrow>
          (let key = Rel base p in
           if pre \<noteq> [] \<and> \<not> prefix pre key then walk c base pre startAfter visits objects w
           else if startAfter \<noteq> [] \<and> key \<le> startAfter
             then walk c base pre startAfter visits objects w
           else case os_Lstat p w of
             (Some e, w1) \<Rightarrow> walk c base pre startAfter visits objects w1
           | (None, w1) \<Rightarrow>
               walk c base pre startAfter visits
                 (objects @ [zero_info\<lparr> Key := key, Size := length bytes,
                               ContentType := detectContentType key, LastModified := m \<rparr>])
                 w1))"

text \<open>\<^verbatim>\<open>filepath.WalkDir(f.basePath, ...)\<close>: a base that does not exist is reported to
  the callback, which returns the error.\<close>

definition WalkDir ::
  "ctx \<Rightarrow> string \<Rightarrow> string \<Rightarrow> string \<Rightarrow> world
     \<Rightarrow> ((os_error + ctx_error) option \<times> ObjectInfo list) \<times> world"
where
  "WalkDir c root pre startAfter w =
     (let base = segs_of root in
      case node_at (tree w) base of
        None \<Rightarrow> ((Some (Inl (missing (tree w) base)), []), logged (SysLstat base) w)
      | Some n \<Rightarrow> walk c base pre startAfter (walk_order base (tree w)) [] w)"

text \<open>\<open>List\<close> after the walk: sort, cut at \<open>maxKeys\<close>, set the marker. An error of the
  walk that is the context's (\<^verbatim>\<open>Canceled\<close> or \<^verbatim>\<open>DeadlineExceeded\<close>) is not returned:
  the objects collected so far are.\<close>

definition list_page :: "int \<Rightarrow> ObjectInfo list \<Rightarrow> ListOutput" where
  "list_page maxKeys objects =
     (let sorted_objects = sort_key Key objects;
          isTruncated = (int (length sorted_objects) > maxKeys);
          page = (if isTruncated then take (nat maxKeys) sorted_objects else sorted_objects);
          output = \<lparr> Objects = page, IsTruncated = isTruncated, NextMarker = [] \<rparr>
      in if length page > 0 then output\<lparr> NextMarker := Key (last page) \<rparr> else output)"

definition List ::
  "FileSystemStore \<Rightarrow> ctx \<Rightarrow> ListInput \<Rightarrow> world \<Rightarrow> (error + ListOutput) \<times> world"
where
  "List f c input w =
     (let maxKeys = (if MaxKeys input \<le> 0 then 1000 else MaxKeys input) in
      case WalkDir c (basePath f) (Prefix input) (StartAfter input) w of
        ((err, objects), w1) \<Rightarrow>
          (case err of
             Some (Inl e) \<Rightarrow> (Inl (Passed ''failed to list objects'' (OsCause e)), w1)
           | Some (Inr s) \<Rightarrow> (Inr (list_page maxKeys objects), w1)
           | None \<Rightarrow> (Inr (list_page maxKeys objects), w1)))"

definition Exists :: "FileSystemStore \<Rightarrow> ctx \<Rightarrow> string \<Rightarrow> world \<Rightarrow> (error + bool) \<times> world" where
  "Exists f c key w =
     (case HeadObject f c key w of
        (Inl e, w1) \<Rightarrow> if err_is e ErrBlobNotFound then (Inr False, w1) else (Inl e, w1)
      | (Inr info, w1) \<Rightarrow> (Inr True, w1))"

text \<open>\<open>Copy\<close> once the source is open: the two deferred closes come last. The source is
  read when the bytes are copied, after the destination was created.\<close>

definition copy_body :: "string \<Rightarrow> string \<Rightarrow> world \<Rightarrow> error option \<times> world" where
  "copy_body sourcePath destPath w =
     (case os_MkdirAll (Dir destPath) w of
        (Some e, w1) \<Rightarrow> (Some (Passed ''failed to create destination directory'' (OsCause e)), w1)
      | (None, w1) \<Rightarrow>
          (case os_Create destPath w1 of
             (Some e, w2) \<Rightarrow>
               (Some (Passed ''failed to create destination file'' (OsCause e)), w2)
           | (None, w2) \<Rightarrow>
               (case (case node_at (tree w2) (segs_of sourcePath) of
                        None \<Rightarrow> (Inl (OsCause EIO), w2)
                      | Some n \<Rightarrow> io_Copy destPath (reader_of n) w2) of
                  (Inl e, w3) \<Rightarrow>
                    (Some (Passed ''failed to copy file'' e),
                     snd (os_Close destPath (snd (os_Remove destPath w3))))
                | (Inr n, w3) \<Rightarrow> (None, snd (os_Close destPath w3)))))"

definition Copy ::
  "FileSystemStore \<Rightarrow> ctx \<Rightarrow> string \<Rightarrow> string \<Rightarrow> world \<Rightarrow> error option \<times> world"
where
  "Copy f c sourceKey destKey w =
     (if sourceKey = [] \<or> destKey = [] then (Some (Plain ErrInvalidBlobKey), w)
      else case fullPath f sourceKey of
        Inl e \<Rightarrow> (Some e, w)
      | Inr sourcePath \<Rightarrow>
          (case fullPath f destKey of
             Inl e \<Rightarrow> (Some e, w)
           | Inr destPath \<Rightarrow>
               (case os_Open sourcePath w of
                  (Inl e, w1) \<Rightarrow>
                    if is_not_exist e then (Some (Plain ErrBlobNotFound), w1)
                    else (Some (Passed ''failed to open source file'' (OsCause e)), w1)
                | (Inr sourceFile, w1) \<Rightarrow>
                    (case copy_body sourcePath destPath w1 of
                       (r, w2) \<Rightarrow> (r, snd (os_Close sourcePath w2))))))"

subsection \<open>The remote object service\<close>

text \<open>
  The service of the networked backend and the SDK's transfer managers are outside the
  repository. The model keeps the objects of the bucket by key, logs every call, and lets
  any call fail with an SDK error. A read of a missing key fails with the typed not-found
  error of that call; deleting a missing key succeeds. In a batch delete the service can
  refuse single keys, which it reports in the result.
\<close>

record s3object =
  obody :: string
  octype :: string
  ometa :: "(string \<times> string) list"
  oetag :: string
  omodified :: "nat option"

datatype s3call =
    CallUpload string
  | CallDownload string
  | CallGetObject string
  | CallHeadObject string
  | CallDeleteObject string
  | CallDeleteObjects "string list"
  | CallListObjectsV2 string string int
  | CallCopyObject string string

record reply =
  sdk_failure :: "sdk_error option"
  refused :: "string list"
  new_etag :: string
  new_version :: "string option"

record cloud =
  stored :: "(string \<times> s3object) list"
  calls :: "s3call list"
  replies :: "nat \<Rightarrow> reply"

definition heard :: "cloud \<Rightarrow> reply" where
  "heard cl = replies cl (length (calls cl))"

definition called :: "s3call \<Rightarrow> cloud \<Rightarrow> cloud" where
  "called c cl = cl\<lparr> calls := calls cl @ [c] \<rparr>"

definition reachable :: "cloud \<Rightarrow> bool" where
  "reachable cl = (\<forall>n. sdk_failure (replies cl n) = None \<and> refused (replies cl n) = [])"

record UploadResult =
  RLocation :: string
  RETag :: "string option"
  RVersionID :: "string option"

definition uploader_Upload ::
  "string \<Rightarrow> string \<Rightarrow> reader \<Rightarrow> string \<Rightarrow> (string \<times> string) list \<Rightarrow> cloud
     \<Rightarrow> (sdk_error + UploadResult) \<times> cloud"
where
  "uploader_Upload bkt key body ctype meta cl =
     (let r = heard cl; cl1 = called (CallUpload key) cl in
      case sdk_failure r of
        Some e \<Rightarrow> (Inl e, cl1)
      | None \<Rightarrow>
          if read_fails body then (Inl (OtherSdk ''read body''), cl1)
          else (Inr \<lparr> RLocation = ''https://'' @ bkt @ ''.s3.amazonaws.com/'' @ key,
                      RETag = Some (new_etag r), RVersionID = new_version r \<rparr>,
                cl1\<lparr> stored := AList.update key
                       \<lparr> obody = content body, octype = ctype, ometa = meta,
                         oetag = new_etag r, omodified = Some (length (calls cl)) \<rparr>
                       (stored cl1) \<rparr>))"

definition downloader_Download ::
  "string \<Rightarrow> string \<Rightarrow> sink \<Rightarrow> cloud \<Rightarrow> (sdk_error + nat) \<times> sink \<times> cloud"
where
  "downloader_Download bkt key s cl =
     (let r = heard cl; cl1 = called (CallDownload key) cl in
      case sdk_failure r of
        Some e \<Rightarrow> (Inl e, s, cl1)
      | None \<Rightarrow>
          (case map_of (stored cl1) key of
             None \<Rightarrow> (Inl (SdkWrap ''operation error S3: GetObject'' TypedNoSuchKey), s, cl1)
           | Some ob \<Rightarrow>
               (case WriteAt s (obody ob) 0 of
                  ((n, True), s') \<Rightarrow> (Inl (OtherSdk ''write''), s', cl1)
                | ((n, False), s') \<Rightarrow> (Inr n, s', cl1))))"

definition client_GetObject :: "string \<Rightarrow> string \<Rightarrow> cloud \<Rightarrow> (sdk_error + reader) \<times> cloud" where
  "client_GetObject bkt key cl =
     (let r = heard cl; cl1 = called (CallGetObject key) cl in
      case sdk_failure r of
        Some e \<Rightarrow> (Inl e, cl1)
      | None \<Rightarrow>
          (case map_of (stored cl1) key of
             None \<Rightarrow> (Inl (SdkWrap ''operation error S3: GetObject'' TypedNoSuchKey), cl1)
           | Some ob \<Rightarrow> (Inr \<lparr> content = obody ob, read_fails = False \<rparr>, cl1)))"

definition client_HeadObject ::
  "string \<Rightarrow> string \<Rightarrow> cloud \<Rightarrow> (sdk_error + s3object) \<times> cloud"
where
  "client_HeadObject bkt key cl =
     (let r = heard cl; cl1 = called (CallHeadObject key) cl in
      case sdk_failure r of
        Some e \<Rightarrow> (Inl e, cl1)
      | None \<Rightarrow>
          (case map_of (stored cl1) key of
             None \<Rightarrow> (Inl (SdkWrap ''operation error S3: HeadObject'' TypedNotFound), cl1)
           | Some ob \<Rightarrow> (Inr ob, cl1)))"

definition client_DeleteObject :: "string \<Rightarrow> string \<Rightarrow> cloud \<Rightarrow> sdk_error option \<times> cloud" where
  "client_DeleteObject bkt key cl =
     (let r = heard cl; cl1 = called (CallDeleteObject key) cl in
      case sdk_failure r of
        Some e \<Rightarrow> (Some e, cl1)
      | None \<Rightarrow> (None, cl1\<lparr> stored := AList.delete key (stored cl1) \<rparr>))"

text \<open>\<^verbatim>\<open>DeleteObjects\<close> in quiet mode: the result lists only the keys that failed.\<close>

definition client_DeleteObjects ::
  "string \<Rightarrow> string list \<Rightarrow> cloud \<Rightarrow> (sdk_error + string list) \<times> cloud"
where
  "client_DeleteObjects bkt batch cl =
     (let r = heard cl; cl1 = called (CallDeleteObjects batch) cl in
      case sdk_failure r of
        Some e \<Rightarrow> (Inl e, cl1)
      | None \<Rightarrow>
          (Inr (filter (\<lambda>k. k \<in> set (refused r)) batch),
           cl1\<lparr> stored := filter (\<lambda>(k, ob). k \<notin> set batch \<or> k \<in> set (refused r))
                              (stored cl1) \<rparr>))"

record ListPage =
  Contents :: "(string \<times> s3object) list"
  PageTruncated :: "bool option"

definition client_ListObjectsV2 ::
  "string \<Rightarrow> int \<Rightarrow> string \<Rightarrow> string \<Rightarrow> cloud \<Rightarrow> (sdk_error + ListPage) \<times> cloud"
where
  "client_ListObjectsV2 bkt maxKeys pre startAfter cl =
     (let r = heard cl; cl1 = called (CallListObjectsV2 pre startAfter maxKeys) cl in
      case sdk_failure r of
        Some e \<Rightarrow> (Inl e, cl1)
      | None \<Rightarrow>
          (let matches = sort_key fst
                 (filter (\<lambda>(k, ob). prefix pre k \<and> (startAfter = [] \<or> startAfter < k))
                    (stored cl1))
           in (Inr \<lparr> Contents = take (nat maxKeys) matches,
                      PageTruncated = Some (int (length matches) > maxKeys) \<rparr>, cl1)))"

definition client_CopyObject ::
  "string \<Rightarrow> string \<Rightarrow> string \<Rightarrow> cloud \<Rightarrow> sdk_error option \<times> cloud"
where
  "client_CopyObject bkt sourceKey destKey cl =
     (let r = heard cl; cl1 = called (CallCopyObject sourceKey destKey) cl in
      case sdk_failure r of
        Some e \<Rightarrow> (Some e, cl1)
      | None \<Rightarrow>
          (case map_of (stored cl1) sourceKey of
             None \<Rightarrow> (Some (APIError ''NoSuchKey''), cl1)
           | Some ob \<Rightarrow> (None, cl1\<lparr> stored := AList.update destKey ob (stored cl1) \<rparr>)))"

subsection \<open>S3Store\<close>

record S3Store =
  bucket :: string

text \<open>\<^verbatim>\<open>errors.As\<close> down the chain of an SDK error: the code of the first API error, and
  whether one of the two typed errors is there.\<close>

fun ErrorCode :: "sdk_error \<Rightarrow> string option" where
  "ErrorCode (APIError code) = Some code"
| "ErrorCode TypedNotFound = Some ''NotFound''"
| "ErrorCode TypedNoSuchKey = Some ''NoSuchKey''"
| "ErrorCode (OtherSdk m) = None"
| "ErrorCode (SdkWrap m e) = ErrorCode e"

fun as_NotFound :: "sdk_error \<Rightarrow> bool" where
  "as_NotFound TypedNotFound = True"
| "as_NotFound (SdkWrap m e) = as_NotFound e"
| "as_NotFound e = False"

fun as_NoSuchKey :: "sdk_error \<Rightarrow> bool" where
  "as_NoSuchKey TypedNoSuchKey = True"
| "as_NoSuchKey (SdkWrap m e) = as_NoSuchKey e"
| "as_NoSuchKey e = False"

definition isNotFoundError :: "sdk_error \<Rightarrow> bool" where
  "isNotFoundError err =
     (if (case ErrorCode err of
            Some code \<Rightarrow> code = ''NotFound'' \<or> code = ''NoSuchKey'' \<or> code = ''404''
          | None \<Rightarrow> False) then True
      else if as_NotFound err then True
      else if as_NoSuchKey err then True
      else False)"

definition S3_Upload ::
  "S3Store \<Rightarrow> ctx \<Rightarrow> UploadInput \<Rightarrow> cloud \<Rightarrow> (error + UploadOutput) \<times> cloud"
where
  "S3_Upload s c input cl =
     (if UKey input = [] then (Inl (Plain ErrInvalidBlobKey), cl)
      else case Body input of
        None \<Rightarrow> (Inl (Annotated ErrInvalidInput (Msg ''body is required'')), cl)
      | Some body \<Rightarrow>
          (let contentType = (if UContentType input = [] then ''application/octet-stream''
                              else UContentType input) in
           case uploader_Upload (bucket s) (UKey input) body contentType (UMetadata input) cl of
             (Inl e, cl1) \<Rightarrow> (Inl (Annotated ErrBlobUploadFailed (SdkCause e)), cl1)
           | (Inr result, cl1) \<Rightarrow>
               (Inr \<lparr> Location = RLocation result,
                      VersionID = (case RVersionID result of None \<Rightarrow> [] | Some v \<Rightarrow> v),
                      UETag = (case RETag result of None \<Rightarrow> [] | Some t \<Rightarrow> t) \<rparr>, cl1)))"

definition S3_Download ::
  "S3Store \<Rightarrow> ctx \<Rightarrow> string \<Rightarrow> sink \<Rightarrow> cloud \<Rightarrow> (nat \<times> error option) \<times> sink \<times> cloud"
where
  "S3_Download s c key sk cl =
     (if key = [] then ((0, Some (Plain ErrInvalidBlobKey)), sk, cl)
      else case downloader_Download (bucket s) key sk cl of
        (Inl e, sk1, cl1) \<Rightarrow>
          if isNotFoundError e then ((0, Some (Plain ErrBlobNotFound)), sk1, cl1)
          else ((0, Some (Annotated ErrBlobDownloadFailed (SdkCause e))), sk1, cl1)
      | (Inr n, sk1, cl1) \<Rightarrow> ((n, None), sk1, cl1))"

definition S3_GetObject :: "S3Store \<Rightarrow> ctx \<Rightarrow> string \<Rightarrow> cloud \<Rightarrow> (error + reader) \<times> cloud" where
  "S3_GetObject s c key cl =
     (if key = [] then (Inl (Plain ErrInvalidBlobKey), cl)
      else case client_GetObject (bucket s) key cl of
        (Inl e, cl1) \<Rightarrow>
          if isNotFoundError e then (Inl (Plain ErrBlobNotFound), cl1)
          else (Inl (Annotated ErrBlobDownloadFailed (SdkCause e)), cl1)
      | (Inr body, cl1) \<Rightarrow> (Inr body, cl1))"

definition S3_HeadObject ::
  "S3Store \<Rightarrow> ctx \<Rightarrow> string \<Rightarrow> cloud \<Rightarrow> (error + ObjectInfo) \<times> cloud"
where
  "S3_HeadObject s c key cl =
     (if key = [] then (Inl (Plain ErrInvalidBlobKey), cl)
      else case client_HeadObject (bucket s) key cl of
        (Inl e, cl1) \<Rightarrow>
          if isNotFoundError e then (Inl (Plain ErrBlobNotFound), cl1)
          else (Inl (Passed ''failed to get object info'' (SdkCause e)), cl1)
      | (Inr result, cl1) \<Rightarrow>
          (let info = zero_info\<lparr> Key := key, Size := length (obody result),
                        ContentType := octype result, ETag := oetag result,
                        Metadata := ometa result \<rparr>
           in (Inr (case omodified result of
                      None \<Rightarrow> info
                    | Some t \<Rightarrow> info\<lparr> LastModified := t \<rparr>), cl1)))"

definition S3_Delete :: "S3Store \<Rightarrow> ctx \<Rightarrow> string \<Rightarrow> cloud \<Rightarrow> error option \<times> cloud" where
  "S3_Delete s c key cl =
     (if key = [] then (Some (Plain ErrInvalidBlobKey), cl)
      else case client_DeleteObject (bucket s) key cl of
        (Some e, cl1) \<Rightarrow> (Some (Annotated ErrBlobDeleteFailed (SdkCause e)), cl1)
      | (None, cl1) \<Rightarrow> (None, cl1))"

definition maxKeysPerRequest :: nat where
  "maxKeysPerRequest = 1000"

text \<open>The batch loop of \<open>DeleteMultiple\<close>: \<open>i\<close> is the index of the next batch.\<close>

function s3_delete_loop ::
  "S3Store \<Rightarrow> ctx \<Rightarrow> string list \<Rightarrow> nat \<Rightarrow> string list \<Rightarrow> cloud \<Rightarrow> string list \<times> cloud"
where
  "s3_delete_loop s c keys i failedKeys cl =
     (if i < length keys then
        (let stop = (if i + maxKeysPerRequest > length keys then length keys
                     else i + maxKeysPerRequest);
             batch = take (stop - i) (drop i keys) in
         case client_DeleteObjects (bucket s) batch cl of
           (Inl e, cl1) \<Rightarrow>
             s3_delete_loop s c keys (i + maxKeysPerRequest) (failedKeys @ batch) cl1
         | (Inr errs, cl1) \<Rightarrow>
             s3_delete_loop s c keys (i + maxKeysPerRequest) (failedKeys @ errs) cl1)
      else (failedKeys, cl))"
  by pat_completeness auto
termination
  by (relation "measure (\<lambda>(s, c, keys, i, failedKeys, cl). length keys - i)")
     (auto simp: maxKeysPerRequest_def)

declare s3_delete_loop.simps [simp del]

definition S3_DeleteMultiple ::
  "S3Store \<Rightarrow> ctx \<Rightarrow> string list \<Rightarrow> cloud \<Rightarrow> (string list \<times> error option) \<times> cloud"
where
  "S3_DeleteMultiple s c keys cl =
     (if length keys = 0 then (([], None), cl)
      else case s3_delete_loop s c keys 0 [] cl of
        (failedKeys, cl1) \<Rightarrow>
          if length failedKeys > 0
          then ((failedKeys,
                 Some (Annotated ErrBlobDeleteFailed
                         (Count (length failedKeys) ''objects failed to delete''))), cl1)
          else (([], None), cl1))"

text \<open>\<open>List\<close> on the one page of the service's answer.\<close>

definition s3_list_output :: "ListPage \<Rightarrow> ListOutput" where
  "s3_list_output result =
     (let objs = map (\<lambda>(k, ob).
                   (let info = zero_info\<lparr> Key := k, Size := length (obody ob),
                                 ETag := oetag ob \<rparr>
                    in case omodified ob of
                         None \<Rightarrow> info
                       | Some t \<Rightarrow> info\<lparr> LastModified := t \<rparr>))
                 (Contents result);
          output = \<lparr> Objects = objs,
                     IsTruncated = (case PageTruncated result of None \<Rightarrow> False | Some b \<Rightarrow> b),
                     NextMarker = [] \<rparr>
      in if length objs > 0 then output\<lparr> NextMarker := Key (last objs) \<rparr> else output)"

definition S3_List ::
  "S3Store \<Rightarrow> ctx \<Rightarrow> ListInput \<Rightarrow> cloud \<Rightarrow> (error + ListOutput) \<times> cloud"
where
  "S3_List s c input cl =
     (let maxKeys = (if MaxKeys input \<le> 0 then 1000 else MaxKeys input) in
      case client_ListObjectsV2 (bucket s) maxKeys (Prefix input) (StartAfter input) cl of
        (Inl e, cl1) \<Rightarrow> (Inl (Passed ''failed to list objects'' (SdkCause e)), cl1)
      | (Inr result, cl1) \<Rightarrow> (Inr (s3_list_output result), cl1))"

definition S3_Exists :: "S3Store \<Rightarrow> ctx \<Rightarrow> string \<Rightarrow> cloud \<Rightarrow> (error + bool) \<times> cloud" where
  "S3_Exists s c key cl =
     (case S3_HeadObject s c key cl of
        (Inl e, cl1) \<Rightarrow> if err_is e ErrBlobNotFound then (Inr False, cl1) else (Inl e, cl1)
      | (Inr info, cl1) \<Rightarrow> (Inr True, cl1))"

definition S3_Copy :: "S3Store \<Rightarrow> ctx \<Rightarrow> string \<Rightarrow> string \<Rightarrow> cloud \<Rightarrow> error option \<times> cloud" where
  "S3_Copy s c sourceKey destKey cl =
     (if sourceKey = [] \<or> destKey = [] then (Some (Plain ErrInvalidBlobKey), cl)
      else case client_CopyObject (bucket s) sourceKey destKey cl of
        (Some e, cl1) \<Rightarrow>
          if isNotFoundError e then (Some (Plain ErrBlobNotFound), cl1)
          else (Some (Passed ''failed to copy object'' (SdkCause e)), cl1)
      | (None, cl1) \<Rightarrow> (None, cl1))"

subsection \<open>Reference functions for the properties\<close>

text \<open>The deletions of \<open>DeleteMultiple\<close> over a list of keys with no look at the context:
  the failures added and the world reached.\<close>

fun delete_run ::
  "FileSystemStore \<Rightarrow> ctx \<Rightarrow> string list \<Rightarrow> string list \<Rightarrow> world \<Rightarrow> string list \<times> world"
where
  "delete_run f c [] failedKeys w = (failedKeys, w)"
| "delete_run f c (key # rest) failedKeys w =
     (case Delete f c key w of
        (Some e, w1) \<Rightarrow>
          if \<not> err_is e ErrBlobNotFound then delete_run f c rest (failedKeys @ [key]) w1
          else delete_run f c rest failedKeys w1
      | (None, w1) \<Rightarrow> delete_run f c rest failedKeys w1)"

subsection \<open>Example worlds\<close>

definition quiet :: "nat \<Rightarrow> answer" where
  "quiet n = \<lparr> failure = None, short = 0, rnd = 7 \<rparr>"

definition data_store :: FileSystemStore where
  "data_store = \<lparr> basePath = ''/data'' \<rparr>"

definition two_files :: world where
  "two_files =
     \<lparr> tree = [([''data''], Directory), ([''data'', ''a''], File ''one'' 0),
               ([''data'', ''b''], File ''two'' 0)],
       log = [], answers = quiet \<rparr>"

definition silent :: "nat \<Rightarrow> reply" where
  "silent n = \<lparr> sdk_failure = None, refused = [], new_etag = ''etag'', new_version = None \<rparr>"

definition blob_bucket :: S3Store where
  "blob_bucket = \<lparr> bucket = ''blobs'' \<rparr>"

definition two_objects :: cloud where
  "two_objects =
     \<lparr> stored = [(''a'', \<lparr> obody = ''one'', octype = ''text/plain'', ometa = [],
                          oetag = ''t1'', omodified = Some 0 \<rparr>),
                 (''b'', \<lparr> obody = ''two'', octype = ''text/plain'', ometa = [],
                          oetag = ''t2'', omodified = Some 0 \<rparr>)],
       calls = [], replies = silent \<rparr>"

definition list_all :: ListInput where
  "list_all = \<lparr> Prefix = [], MaxKeys = 0, StartAfter = [] \<rparr>"

text \<open>A key that leaves the root after normalization: \<^verbatim>\<open>..\<close> itself, or a path that
  begins with the element \<^verbatim>\<open>..\<close>.\<close>

definition escapes :: "string \<Rightarrow> bool" where
  "escapes key = (Clean key = ''..'' \<or> prefix ''../'' (Clean key))"

definition failing :: "sdk_error \<Rightarrow> nat \<Rightarrow> reply" where
  "failing e n = \<lparr> sdk_failure = Some e, refused = [], new_etag = [], new_version = None \<rparr>"

definition access_denied :: cloud where
  "access_denied = two_objects\<lparr> replies := failing (APIError ''AccessDenied'') \<rparr>"

definition no_such_key :: cloud where
  "no_such_key = two_objects\<lparr> replies := failing (SdkWrap ''operation error'' (APIError ''NoSuchKey'')) \<rparr>"

definition empty_sink :: sink where
  "empty_sink = \<lparr> buf = [], room = None \<rparr>"

definition upload_of :: "string \<Rightarrow> string \<Rightarrow> UploadInput" where
  "upload_of key bytes =
     \<lparr> UKey = key, Body = Some \<lparr> content = bytes, read_fails = False \<rparr>,
       UContentType = [], UMetadata = [] \<rparr>"


text \<open>The batches of \<open>DeleteMultiple\<close> on the networked backend, as the claim words them:
  the keys cut into runs of \<open>n\<close>, and the batched calls made one after the other with
  their failures collected.\<close>

function chunks :: "nat \<Rightarrow> 'a list \<Rightarrow> 'a list list" where
  "chunks n xs = (if n = 0 \<or> xs = [] then [] else take n xs # chunks n (drop n xs))"
  by pat_completeness auto
termination
  by (relation "measure (\<lambda>(n, xs). length xs)") auto

declare chunks.simps [simp del]

fun batch_run :: "S3Store \<Rightarrow> string list list \<Rightarrow> string list \<Rightarrow> cloud \<Rightarrow> string list \<times> cloud"
where
  "batch_run s [] failedKeys cl = (failedKeys, cl)"
| "batch_run s (batch # rest) failedKeys cl =
     (case client_DeleteObjects (bucket s) batch cl of
        (Inl e, cl1) \<Rightarrow> batch_run s rest (failedKeys @ batch) cl1
      | (Inr errs, cl1) \<Rightarrow> batch_run s rest (failedKeys @ errs) cl1)"

text \<open>
  The hash of \<open>Upload\<close> is \<^verbatim>\<open>crypto/md5\<close>, which is outside the repository. For the
  examples the digest of the five bytes \<^verbatim>\<open>hello\<close> is enough; any other input is given
  the digest of the empty input.
\<close>

definition example_md5 :: "string \<Rightarrow> string" where
  "example_md5 bytes =
     (if bytes = ''hello'' then ''5d41402abc4b2a76b9719d911017c592''
      else ''d41d8cd98f00b204e9800998ecf8427e'')"

definition marked_sink :: sink where
  "marked_sink = \<lparr> buf = ''xxxxxxxxx'', room = None \<rparr>"

text \<open>
  The listing as the claim words it: the keys of all files below the base, those that
  match the prefix and are greater than \<open>startAfter\<close>, and the \<open>ObjectInfo\<close> of a file.
\<close>

definition stored_keys :: "path \<Rightarrow> tree \<Rightarrow> string list" where
  "stored_keys base t =
     map (\<lambda>(p, n). Rel base p) (filter (\<lambda>(p, n). prefix base p \<and> is_file (Some n)) t)"

definition matches :: "string \<Rightarrow> string \<Rightarrow> string \<Rightarrow> bool" where
  "matches pre startAfter key =
     ((pre = [] \<or> prefix pre key) \<and> (startAfter = [] \<or> startAfter < key))"

definition info_of :: "path \<Rightarrow> path \<times> node \<Rightarrow> ObjectInfo" where
  "info_of base e =
     (case e of
        (p, File bytes m) \<Rightarrow>
          zero_info\<lparr> Key := Rel base p, Size := length bytes,
            ContentType := detectContentType (Rel base p), LastModified := m \<rparr>
      | (p, Directory) \<Rightarrow> zero_info)"

definition five_files :: world where
  "five_files =
     \<lparr> tree = [([''data''], Directory), ([''data'', ''a''], Directory),
               ([''data'', ''a'', ''3''], File ''three'' 0),
               ([''data'', ''a'', ''1''], File ''one'' 0),
               ([''data'', ''a'', ''5''], File ''five'' 0),
               ([''data'', ''a'', ''2''], File ''two'' 0),
               ([''data'', ''a'', ''4''], File ''four'' 0)],
       log = [], answers = quiet \<rparr>"

text \<open>The paths of the keys that \<open>fullPath\<close> accepts, in the order of the keys.\<close>

definition paths_of :: "FileSystemStore \<Rightarrow> string list \<Rightarrow> string list" where
  "paths_of f keys =
     List.map_filter (\<lambda>key. case fullPath f key of Inl e \<Rightarrow> None | Inr fp \<Rightarrow> Some fp) keys"




section \<open>Properties\<close>

subsection \<open>DeleteMultiple on the local backend\<close>

lemma delete_run_world: "snd (delete_run f c ks fk w) = snd (delete_run f c ks fk' w)"
  by (induction ks arbitrary: fk fk' w) (auto split: prod.splits option.splits)

lemma delete_loop_run:
  assumes "\<forall>i<length pre. ctx_Err c (now (snd (delete_run f c (take i pre) [] w))) = None"
  shows "delete_loop f c keys (pre @ rest) fk w =
         delete_loop f c keys rest (fst (delete_run f c pre fk w)) (snd (delete_run f c pre fk w))"
  using assms
proof (induction pre arbitrary: fk w)
  case Nil
  then show ?case by simp
next
  case (Cons k pre)
  from Cons.prems have live: "ctx_Err c (now w) = None" by force
  have step: "\<forall>i<length pre.
      ctx_Err c (now (snd (delete_run f c (take i pre) [] (snd (Delete f c k w))))) = None"
  proof (intro allI impI)
    fix i assume "i < length pre"
    then have "Suc i < length (k # pre)" by simp
    from Cons.prems[rule_format, OF this]
    show "ctx_Err c (now (snd (delete_run f c (take i pre) [] (snd (Delete f c k w))))) = None"
      using delete_run_world[of f c "take i pre" "[]" "snd (Delete f c k w)" "[k]"]
      by (auto split: prod.splits option.splits if_splits)
  qed
  show ?case
    using live Cons.IH[OF step]
    by (auto split: prod.splits option.splits)
qed

text \<open>
  C9. When the check of the context in the loop of \<open>DeleteMultiple\<close> first finds the
  context done at the key after \<open>pre\<close>, the result is the failures collected over \<open>pre\<close>
  followed by every key of the input, also those of \<open>pre\<close> that were deleted, together
  with the error of the context, which is not \<open>ErrBlobDeleteFailed\<close>.
\<close>

theorem DeleteMultiple_cancelled_partway:
  assumes "keys = pre @ key # post"
    and "\<forall>i<length pre. ctx_Err c (now (snd (delete_run f c (take i pre) [] w))) = None"
    and "ctx_Err c (now (snd (delete_run f c pre [] w))) = Some e"
  shows "DeleteMultiple f c keys w =
           ((fst (delete_run f c pre [] w) @ keys, Some e), snd (delete_run f c pre [] w))
         \<and> e = Plain (Context (done_err c)) \<and> \<not> err_is e ErrBlobDeleteFailed"
proof -
  have "DeleteMultiple f c keys w =
           ((fst (delete_run f c pre [] w) @ keys, Some e), snd (delete_run f c pre [] w))"
    using assms(1,3) delete_loop_run[OF assms(2), of keys "key # post" "[]"]
    by (simp add: DeleteMultiple_def)
  moreover have "e = Plain (Context (done_err c))"
    using assms(3) by (auto simp: ctx_Err_def ctx_done_def split: option.splits if_splits)
  ultimately show ?thesis by simp
qed

theorem DeleteMultiple_cancelled_partway_witness:
  "fst (DeleteMultiple data_store \<lparr> done_at = Some 1, done_err = Canceled \<rparr> [''a'', ''b'']
          two_files)
     = ([''a'', ''b''], Some (Plain (Context Canceled)))
   \<and> node_at (tree (snd (DeleteMultiple data_store \<lparr> done_at = Some 1, done_err = Canceled \<rparr>
         [''a'', ''b''] two_files))) [''data'', ''a''] = None
   \<and> node_at (tree two_files) [''data'', ''a''] = Some (File ''one'' 0)"
proof -
  let ?c = "\<lparr> done_at = Some 1, done_err = Canceled \<rparr>"
  let ?run = "delete_run data_store ?c [''a''] [] two_files"
  have h1: "[''a'', ''b''] = [''a''] @ ''b'' # []" by simp
  have h2: "\<forall>i<length [''a''].
      ctx_Err ?c (now (snd (delete_run data_store ?c (take i [''a'']) [] two_files))) = None"
    by (simp add: ctx_Err_def ctx_done_def now_def two_files_def)
  have h3: "ctx_Err ?c (now (snd ?run)) = Some (Plain (Context Canceled))"
    by code_simp
  have r1: "fst ?run = []" by code_simp
  have r2: "node_at (tree (snd ?run)) [''data'', ''a''] = None" by code_simp
  have r3: "node_at (tree two_files) [''data'', ''a''] = Some (File ''one'' 0)" by code_simp
  show ?thesis
    using DeleteMultiple_cancelled_partway[OF h1 h2 h3] r1 r2 r3 by simp
qed

subsection \<open>The marker of a page\<close>

lemma list_page_marker:
  "Objects (list_page m objs) \<noteq> [] \<Longrightarrow>
     NextMarker (list_page m objs) = Key (last (Objects (list_page m objs)))"
  by (auto simp: list_page_def Let_def)

lemma s3_list_output_marker:
  "Objects (s3_list_output r) \<noteq> [] \<Longrightarrow>
     NextMarker (s3_list_output r) = Key (last (Objects (s3_list_output r)))"
  by (auto simp: s3_list_output_def Let_def)

lemma List_result:
  "List f c input w = (Inr out, w') \<Longrightarrow> \<exists>m objs. out = list_page m objs"
  by (auto simp: List_def Let_def split: prod.splits option.splits sum.splits)

lemma S3_List_result:
  "S3_List s c input cl = (Inr out, cl') \<Longrightarrow> \<exists>r. out = s3_list_output r"
  by (auto simp: S3_List_def Let_def split: prod.splits option.splits sum.splits)

text \<open>
  C10. On both backends a page of \<open>List\<close> that is not empty has the key of its last
  object as \<open>NextMarker\<close>, whatever \<open>IsTruncated\<close> says; and on both there is a listing
  that is not truncated and still has a marker, so the marker alone does not say that
  more results exist.
\<close>

theorem List_NextMarker_last:
  "(\<forall>out w'. List f c input w = (Inr out, w') \<longrightarrow> Objects out \<noteq> [] \<longrightarrow>
        NextMarker out = Key (last (Objects out)))
   \<and> (\<forall>out cl'. S3_List s c input cl = (Inr out, cl') \<longrightarrow> Objects out \<noteq> [] \<longrightarrow>
        NextMarker out = Key (last (Objects out)))
   \<and> (\<exists>out. fst (List data_store background list_all two_files) = Inr out
          \<and> \<not> IsTruncated out \<and> NextMarker out = ''b'')
   \<and> (\<exists>out. fst (S3_List blob_bucket background list_all two_objects) = Inr out
          \<and> \<not> IsTruncated out \<and> NextMarker out = ''b'')"
proof (intro conjI allI impI)
  fix out w' assume "List f c input w = (Inr out, w')" "Objects out \<noteq> []"
  then show "NextMarker out = Key (last (Objects out))"
    using List_result list_page_marker by blast
next
  fix out cl' assume "S3_List s c input cl = (Inr out, cl')" "Objects out \<noteq> []"
  then show "NextMarker out = Key (last (Objects out))"
    using S3_List_result s3_list_output_marker by blast
next
  have "case fst (List data_store background list_all two_files) of
          Inl e \<Rightarrow> False | Inr out \<Rightarrow> \<not> IsTruncated out \<and> NextMarker out = ''b''"
    by code_simp
  then show "\<exists>out. fst (List data_store background list_all two_files) = Inr out
          \<and> \<not> IsTruncated out \<and> NextMarker out = ''b''"
    by (auto split: sum.splits)
next
  have "case fst (S3_List blob_bucket background list_all two_objects) of
          Inl e \<Rightarrow> False | Inr out \<Rightarrow> \<not> IsTruncated out \<and> NextMarker out = ''b''"
    by code_simp
  then show "\<exists>out. fst (S3_List blob_bucket background list_all two_objects) = Inr out
          \<and> \<not> IsTruncated out \<and> NextMarker out = ''b''"
    by (auto split: sum.splits)
qed

theorem List_NextMarker_last_witness:
  "(\<exists>out. fst (List data_store background list_all two_files) = Inr out
        \<and> map Key (Objects out) = [''a'', ''b''] \<and> \<not> IsTruncated out
        \<and> NextMarker out = Key (last (Objects out)))
   \<and> (\<exists>out. fst (S3_List blob_bucket background list_all two_objects) = Inr out
        \<and> map Key (Objects out) = [''a'', ''b''] \<and> \<not> IsTruncated out
        \<and> NextMarker out = Key (last (Objects out)))"
proof -
  have a: "case fst (List data_store background list_all two_files) of
          Inl e \<Rightarrow> False
        | Inr out \<Rightarrow> map Key (Objects out) = [''a'', ''b''] \<and> \<not> IsTruncated out"
    by code_simp
  have b: "case fst (S3_List blob_bucket background list_all two_objects) of
          Inl e \<Rightarrow> False
        | Inr out \<Rightarrow> map Key (Objects out) = [''a'', ''b''] \<and> \<not> IsTruncated out"
    by code_simp
  obtain o1 where o1: "fst (List data_store background list_all two_files) = Inr o1"
      "map Key (Objects o1) = [''a'', ''b'']" "\<not> IsTruncated o1"
    using a by (auto split: sum.splits)
  obtain o2 where o2: "fst (S3_List blob_bucket background list_all two_objects) = Inr o2"
      "map Key (Objects o2) = [''a'', ''b'']" "\<not> IsTruncated o2"
    using b by (auto split: sum.splits)
  have e1: "List data_store background list_all two_files
      = (Inr o1, snd (List data_store background list_all two_files))"
    using o1(1) by (metis prod.collapse)
  have e2: "S3_List blob_bucket background list_all two_objects
      = (Inr o2, snd (S3_List blob_bucket background list_all two_objects))"
    using o2(1) by (metis prod.collapse)
  have n1: "Objects o1 \<noteq> []" using o1(2) by auto
  have n2: "Objects o2 \<noteq> []" using o2(2) by auto
  from List_NextMarker_last[of data_store background list_all two_files
      blob_bucket two_objects]
  have m: "NextMarker o1 = Key (last (Objects o1))" "NextMarker o2 = Key (last (Objects o2))"
    using e1 e2 n1 n2 by blast+
  have "\<exists>out. fst (List data_store background list_all two_files) = Inr out
        \<and> map Key (Objects out) = [''a'', ''b''] \<and> \<not> IsTruncated out
        \<and> NextMarker out = Key (last (Objects out))"
    by (rule exI[of _ o1]) (simp add: o1 m)
  moreover have "\<exists>out. fst (S3_List blob_bucket background list_all two_objects) = Inr out
        \<and> map Key (Objects out) = [''a'', ''b''] \<and> \<not> IsTruncated out
        \<and> NextMarker out = Key (last (Objects out))"
    by (rule exI[of _ o2]) (simp add: o2 m)
  ultimately show ?thesis by (rule conjI)
qed

subsection \<open>Rejection of keys\<close>


lemma fullPath_rejects:
  assumes "key = [] \<or> IsAbs key \<or> escapes key"
  shows "\<exists>e. fullPath f key = Inl e \<and> err_is e ErrInvalidBlobKey"
proof (cases "key = []")
  case True
  then show ?thesis by (simp add: fullPath_def)
next
  case False
  have "prefix ''..'' (Clean key) \<or> IsAbs (Clean key)"
  proof -
    from assms False consider "IsAbs key" | "escapes key" by blast
    then show ?thesis
    proof cases
      case 1
      then show ?thesis using False by (simp add: Clean_def IsAbs_def)
    next
      case 2
      then show ?thesis by (auto simp: escapes_def prefix_def)
    qed
  qed
  then show ?thesis using False by (auto simp: fullPath_def Let_def)
qed

lemma fs_rejects:
  assumes fp: "fullPath f key = Inl e"
  shows "Download f c key sk w = ((0, Some e), sk, w)"
    "GetObject f c key w = (Inl e, w)"
    "HeadObject f c key w = (Inl e, w)"
    "Delete f c key w = (Some e, w)"
  using fp by (simp_all add: Download_def GetObject_def HeadObject_def Delete_def)

lemma fs_Exists_rejects:
  assumes fp: "fullPath f key = Inl e" and "err_is e ErrInvalidBlobKey"
  shows "Exists f c key w = (Inl e, w)"
proof -
  have "\<not> err_is e ErrBlobNotFound" using assms(2) by (cases e) auto
  then show ?thesis using fp by (simp add: Exists_def HeadObject_def)
qed

lemma fs_Upload_rejects:
  assumes fp: "fullPath f key = Inl e" and "UKey input = key" "Body input = Some body"
  shows "Upload md5hex f c input w = (Inl e, w)"
  using assms by (auto simp: Upload_def fullPath_def)

lemma fs_Copy_rejects:
  assumes fp: "fullPath f key = Inl e" "err_is e ErrInvalidBlobKey"
  shows "\<exists>e1. err_is e1 ErrInvalidBlobKey \<and> Copy f c key other w = (Some e1, w)"
    "\<exists>e2. err_is e2 ErrInvalidBlobKey \<and> Copy f c other key w = (Some e2, w)"
proof -
  show "\<exists>e1. err_is e1 ErrInvalidBlobKey \<and> Copy f c key other w = (Some e1, w)"
    using assms by (auto simp: Copy_def)
  show "\<exists>e2. err_is e2 ErrInvalidBlobKey \<and> Copy f c other key w = (Some e2, w)"
  proof (cases "fullPath f other")
    case (Inl a)
    then have "err_is a ErrInvalidBlobKey"
      by (auto simp: fullPath_def Let_def split: if_splits)
    then show ?thesis using assms Inl by (auto simp: Copy_def)
  next
    case (Inr b)
    then show ?thesis using assms by (auto simp: Copy_def)
  qed
qed

lemma fs_DeleteMultiple_rejects:
  assumes fp: "fullPath f key = Inl e" "err_is e ErrInvalidBlobKey" "ctx_Err c (now w) = None"
  shows "DeleteMultiple f c [key] w =
           (([key], Some (Annotated ErrBlobDeleteFailed (Count 1 ''files failed to delete''))), w)"
proof -
  have "\<not> err_is e ErrBlobNotFound" using assms(2) by (cases e) auto
  then show ?thesis using assms by (simp add: DeleteMultiple_def Delete_def)
qed

lemma s3_empty_key:
  "S3_Download s c [] sk cl = ((0, Some (Plain ErrInvalidBlobKey)), sk, cl)"
  "S3_GetObject s c [] cl = (Inl (Plain ErrInvalidBlobKey), cl)"
  "S3_HeadObject s c [] cl = (Inl (Plain ErrInvalidBlobKey), cl)"
  "S3_Exists s c [] cl = (Inl (Plain ErrInvalidBlobKey), cl)"
  "S3_Delete s c [] cl = (Some (Plain ErrInvalidBlobKey), cl)"
  "S3_Copy s c [] other cl = (Some (Plain ErrInvalidBlobKey), cl)"
  "S3_Copy s c other [] cl = (Some (Plain ErrInvalidBlobKey), cl)"
  "UKey input = [] \<Longrightarrow> S3_Upload s c input cl = (Inl (Plain ErrInvalidBlobKey), cl)"
  by (simp_all add: S3_Download_def S3_GetObject_def S3_HeadObject_def S3_Exists_def
      S3_Delete_def S3_Copy_def S3_Upload_def)

lemma s3_calls:
  "calls (snd (snd (S3_Download s c (k # ks) sk cl))) = calls cl @ [CallDownload (k # ks)]"
  "calls (snd (S3_GetObject s c (k # ks) cl)) = calls cl @ [CallGetObject (k # ks)]"
  "calls (snd (S3_HeadObject s c (k # ks) cl)) = calls cl @ [CallHeadObject (k # ks)]"
  "calls (snd (S3_Exists s c (k # ks) cl)) = calls cl @ [CallHeadObject (k # ks)]"
  "calls (snd (S3_Delete s c (k # ks) cl)) = calls cl @ [CallDeleteObject (k # ks)]"
  by (simp_all add: S3_Download_def downloader_Download_def S3_GetObject_def
      client_GetObject_def S3_HeadObject_def client_HeadObject_def S3_Exists_def
      S3_Delete_def client_DeleteObject_def Let_def called_def
      split: option.splits prod.splits sum.splits bool.splits)


subsection \<open>Errors of the networked backend\<close>

lemma isNotFoundError_wrap: "isNotFoundError (SdkWrap m e) = isNotFoundError e"
  by (simp add: isNotFoundError_def)

lemma S3_Upload_fails:
  "UKey input \<noteq> [] \<Longrightarrow> Body input = Some body \<Longrightarrow> sdk_failure (heard cl) = Some e \<Longrightarrow>
   fst (S3_Upload s c input cl) = Inl (Annotated ErrBlobUploadFailed (SdkCause e))"
  by (simp add: S3_Upload_def uploader_Upload_def Let_def)

lemma S3_Download_fails:
  "key \<noteq> [] \<Longrightarrow> sdk_failure (heard cl) = Some e \<Longrightarrow>
   snd (fst (S3_Download s c key sk cl)) =
     Some (if isNotFoundError e then Plain ErrBlobNotFound
           else Annotated ErrBlobDownloadFailed (SdkCause e))"
  by (simp add: S3_Download_def downloader_Download_def Let_def)

lemma S3_GetObject_fails:
  "key \<noteq> [] \<Longrightarrow> sdk_failure (heard cl) = Some e \<Longrightarrow>
   fst (S3_GetObject s c key cl) =
     Inl (if isNotFoundError e then Plain ErrBlobNotFound
          else Annotated ErrBlobDownloadFailed (SdkCause e))"
  by (simp add: S3_GetObject_def client_GetObject_def Let_def)

lemma S3_Delete_fails:
  "key \<noteq> [] \<Longrightarrow> sdk_failure (heard cl) = Some e \<Longrightarrow>
   fst (S3_Delete s c key cl) = Some (Annotated ErrBlobDeleteFailed (SdkCause e))"
  by (simp add: S3_Delete_def client_DeleteObject_def Let_def)

lemma S3_HeadObject_fails:
  "key \<noteq> [] \<Longrightarrow> sdk_failure (heard cl) = Some e \<Longrightarrow>
   fst (S3_HeadObject s c key cl) =
     Inl (if isNotFoundError e then Plain ErrBlobNotFound
          else Passed ''failed to get object info'' (SdkCause e))"
  by (simp add: S3_HeadObject_def client_HeadObject_def Let_def)

lemma S3_Copy_fails:
  "key \<noteq> [] \<Longrightarrow> dest \<noteq> [] \<Longrightarrow> sdk_failure (heard cl) = Some e \<Longrightarrow>
   fst (S3_Copy s c key dest cl) =
     Some (if isNotFoundError e then Plain ErrBlobNotFound
           else Passed ''failed to copy object'' (SdkCause e))"
  by (simp add: S3_Copy_def client_CopyObject_def Let_def)

lemma S3_List_fails:
  "sdk_failure (heard cl) = Some e \<Longrightarrow>
   fst (S3_List s c input cl) = Inl (Passed ''failed to list objects'' (SdkCause e))"
  by (simp add: S3_List_def client_ListObjectsV2_def Let_def)

text \<open>
  C8, as the code has it. \<open>isNotFoundError\<close> holds of the API error codes
  \<^verbatim>\<open>NotFound\<close>, \<^verbatim>\<open>NoSuchKey\<close> and \<^verbatim>\<open>404\<close> and of the two typed errors, also when the
  SDK has wrapped them. When the call to the service fails with the error \<open>e\<close>:
  \<open>Download\<close> and \<open>GetObject\<close> answer \<open>ErrBlobNotFound\<close> if \<open>e\<close> is such an error and
  \<open>ErrBlobDownloadFailed\<close> with the cause otherwise; \<open>Upload\<close> answers
  \<open>ErrBlobUploadFailed\<close> and \<open>Delete\<close> answers \<open>ErrBlobDeleteFailed\<close> with the cause,
  whatever \<open>e\<close> is; \<open>HeadObject\<close> and \<open>Copy\<close> answer \<open>ErrBlobNotFound\<close> if \<open>e\<close> is a
  not-found error and otherwise, like \<open>List\<close> always, an error that wraps \<open>e\<close> itself.
\<close>

theorem S3_error_classification:
  assumes "key \<noteq> []" and "dest \<noteq> []" and "sdk_failure (heard cl) = Some e"
  shows "isNotFoundError (APIError ''NotFound'') \<and> isNotFoundError (APIError ''NoSuchKey'')
         \<and> isNotFoundError (APIError ''404'') \<and> isNotFoundError TypedNotFound
         \<and> isNotFoundError TypedNoSuchKey
         \<and> isNotFoundError (SdkWrap m e) = isNotFoundError e
         \<and> snd (fst (S3_Download s c key sk cl)) =
             Some (if isNotFoundError e then Plain ErrBlobNotFound
                   else Annotated ErrBlobDownloadFailed (SdkCause e))
         \<and> fst (S3_GetObject s c key cl) =
             Inl (if isNotFoundError e then Plain ErrBlobNotFound
                  else Annotated ErrBlobDownloadFailed (SdkCause e))
         \<and> fst (S3_Upload s c (upload_of key bytes) cl) =
             Inl (Annotated ErrBlobUploadFailed (SdkCause e))
         \<and> fst (S3_Delete s c key cl) = Some (Annotated ErrBlobDeleteFailed (SdkCause e))
         \<and> fst (S3_HeadObject s c key cl) =
             Inl (if isNotFoundError e then Plain ErrBlobNotFound
                  else Passed ''failed to get object info'' (SdkCause e))
         \<and> fst (S3_Copy s c key dest cl) =
             Some (if isNotFoundError e then Plain ErrBlobNotFound
                   else Passed ''failed to copy object'' (SdkCause e))
         \<and> fst (S3_List s c input cl) = Inl (Passed ''failed to list objects'' (SdkCause e))"
proof -
  have shapes: "isNotFoundError (APIError ''NotFound'')" "isNotFoundError (APIError ''NoSuchKey'')"
    "isNotFoundError (APIError ''404'')" "isNotFoundError TypedNotFound"
    "isNotFoundError TypedNoSuchKey"
    by (simp_all add: isNotFoundError_def)
  have up: "fst (S3_Upload s c (upload_of key bytes) cl) =
             Inl (Annotated ErrBlobUploadFailed (SdkCause e))"
    by (rule S3_Upload_fails[where body = "\<lparr> content = bytes, read_fails = False \<rparr>"])
       (simp_all add: upload_of_def assms)
  show ?thesis
    using shapes up isNotFoundError_wrap[of m e] S3_Download_fails[OF assms(1,3)]
      S3_GetObject_fails[OF assms(1,3)] S3_Delete_fails[OF assms(1,3)]
      S3_HeadObject_fails[OF assms(1,3)] S3_Copy_fails[OF assms]
      S3_List_fails[OF assms(3)]
    by simp
qed

theorem S3_error_classification_witness:
  "fst (S3_Download blob_bucket background ''a'' empty_sink no_such_key)
     = (0, Some (Plain ErrBlobNotFound))
   \<and> fst (S3_GetObject blob_bucket background ''a'' no_such_key) = Inl (Plain ErrBlobNotFound)
   \<and> fst (S3_HeadObject blob_bucket background ''a'' no_such_key) = Inl (Plain ErrBlobNotFound)
   \<and> fst (S3_Upload blob_bucket background (upload_of ''a'' ''x'') no_such_key)
     = Inl (Annotated ErrBlobUploadFailed
              (SdkCause (SdkWrap ''operation error'' (APIError ''NoSuchKey''))))"
proof -
  let ?e = "SdkWrap ''operation error'' (APIError ''NoSuchKey'')"
  have h1: "''a'' \<noteq> []" by simp
  have h2: "sdk_failure (heard no_such_key) = Some ?e"
    by (simp add: heard_def no_such_key_def failing_def)
  have nf: "isNotFoundError ?e" by (simp add: isNotFoundError_def)
  have zero: "fst (fst (S3_Download blob_bucket background ''a'' empty_sink no_such_key)) = 0"
    by (simp add: S3_Download_def downloader_Download_def Let_def heard_def no_such_key_def
        failing_def nf)
  from S3_error_classification[OF h1 h1 h2, of "''m''" blob_bucket background empty_sink
      "''x''" list_all]
  show ?thesis using nf zero by (simp add: prod_eq_iff)
qed

text \<open>
  C8 as stated fails: \<open>HeadObject\<close> answers a denied request with an error that is none
  of the kinds of the taxonomy and holds the backend's own error in its chain, and
  \<open>Delete\<close> answers a not-found error of the service with \<open>ErrBlobDeleteFailed\<close>.
\<close>

theorem S3_error_classification_counterexample:
  "fst (S3_HeadObject blob_bucket background ''a'' access_denied)
     = Inl (Passed ''failed to get object info'' (SdkCause (APIError ''AccessDenied'')))
   \<and> raw_backend (Passed ''failed to get object info'' (SdkCause (APIError ''AccessDenied'')))
   \<and> \<not> err_is (Passed ''failed to get object info'' (SdkCause (APIError ''AccessDenied'')))
         ErrBlobNotFound
   \<and> \<not> err_is (Passed ''failed to get object info'' (SdkCause (APIError ''AccessDenied'')))
         ErrBlobDownloadFailed
   \<and> isNotFoundError (SdkWrap ''operation error'' (APIError ''NoSuchKey''))
   \<and> fst (S3_Delete blob_bucket background ''a'' no_such_key)
     = Some (Annotated ErrBlobDeleteFailed
               (SdkCause (SdkWrap ''operation error'' (APIError ''NoSuchKey''))))"
  by code_simp

subsection \<open>Deleting\<close>


lemma healthy_ask: "healthy w \<Longrightarrow> failure (ask w) = None"
  by (simp add: healthy_def ask_def)

lemma healthy_logged [simp]: "healthy (logged c w) = healthy w"
  by (simp add: healthy_def logged_def)

lemma healthy_tree [simp]: "healthy (w\<lparr> tree := t \<rparr>) = healthy w"
  by (simp add: healthy_def)

lemma node_at_update:
  "node_at (AList.update k v t) p =
     (if p = [] then Some Directory else if p = k then Some v else node_at t p)"
  by (simp add: node_at_def update_conv')

lemma node_at_delete:
  "node_at (AList.delete k t) p =
     (if p = [] then Some Directory else if p = k then None else node_at t p)"
  by (simp add: node_at_def delete_conv')

lemma node_at_root [simp]: "node_at t [] = Some Directory"
  by (simp add: node_at_def)















subsection \<open>Deleting many\<close>


lemma ctx_never: "done_at c = None \<Longrightarrow> ctx_Err c t = None"
  by (simp add: ctx_Err_def ctx_done_def)

lemma DeleteMultiple_run:
  assumes "done_at c = None"
  shows "DeleteMultiple f c keys w =
     (if fst (delete_run f c keys [] w) = [] then ([], None)
      else (fst (delete_run f c keys [] w),
            Some (Annotated ErrBlobDeleteFailed
                    (Count (length (fst (delete_run f c keys [] w))) ''files failed to delete''))),
      snd (delete_run f c keys [] w))"
proof -
  have "delete_loop f c keys (keys @ []) [] w =
         delete_loop f c keys [] (fst (delete_run f c keys [] w)) (snd (delete_run f c keys [] w))"
    by (rule delete_loop_run) (simp add: ctx_never[OF assms])
  then show ?thesis by (cases keys) (auto simp: DeleteMultiple_def)
qed


lemma chunks_Nil [simp]: "chunks n [] = []" by (simp add: chunks.simps)

lemma concat_chunks: "0 < n \<Longrightarrow> concat (chunks n xs) = xs"
proof (induction n xs rule: chunks.induct)
  case (1 n xs)
  then show ?case by (cases "xs = []") (simp_all add: chunks.simps[of n xs])
qed


lemma s3_delete_loop_batches:
  "s3_delete_loop s c keys i fk cl = batch_run s (chunks maxKeysPerRequest (drop i keys)) fk cl"
proof (induction s c keys i fk cl rule: s3_delete_loop.induct)
  case (1 s c keys i fk cl)
  show ?case
  proof (cases "i < length keys")
    case False
    then show ?thesis by (simp add: s3_delete_loop.simps[of s c keys i])
  next
    case True
    let ?stop = "if i + maxKeysPerRequest > length keys then length keys else i + maxKeysPerRequest"
    let ?batch = "take (?stop - i) (drop i keys)"
    have b: "?batch = take maxKeysPerRequest (drop i keys)" using True by auto
    have ch: "chunks maxKeysPerRequest (drop i keys) =
        ?batch # chunks maxKeysPerRequest (drop (i + maxKeysPerRequest) keys)"
      using True
      by (subst chunks.simps) (simp add: maxKeysPerRequest_def add.commute)
    show ?thesis
    proof (cases "client_DeleteObjects (bucket s) ?batch cl")
      case (Pair r cl1)
      show ?thesis
      proof (cases r)
        case (Inl e)
        from "1.IH"(1)[OF True refl refl Pair[symmetric] Inl] Pair Inl True ch
        show ?thesis
          by (subst s3_delete_loop.simps) (simp add: Let_def)
      next
        case (Inr errs)
        from "1.IH"(2)[OF True refl refl Pair[symmetric] Inr] Pair Inr True ch
        show ?thesis
          by (subst s3_delete_loop.simps) (simp add: Let_def)
      qed
    qed
  qed
qed

lemma batch_run_calls:
  "calls (snd (batch_run s bs fk cl)) = calls cl @ map CallDeleteObjects bs"
  by (induction bs arbitrary: fk cl)
     (auto simp: client_DeleteObjects_def Let_def called_def split: prod.splits sum.splits option.splits)

lemma batch_run_replies:
  "replies (snd (batch_run s bs fk cl)) = replies cl"
  by (induction bs arbitrary: fk cl)
     (auto simp: client_DeleteObjects_def Let_def called_def split: prod.splits sum.splits option.splits)


lemma S3_DeleteMultiple_batches:
  "S3_DeleteMultiple s c keys cl =
     (if fst (batch_run s (chunks maxKeysPerRequest keys) [] cl) = [] then ([], None)
      else (fst (batch_run s (chunks maxKeysPerRequest keys) [] cl),
            Some (Annotated ErrBlobDeleteFailed
                    (Count (length (fst (batch_run s (chunks maxKeysPerRequest keys) [] cl)))
                       ''objects failed to delete''))),
      snd (batch_run s (chunks maxKeysPerRequest keys) [] cl))"
  by (cases keys)
     (auto simp: S3_DeleteMultiple_def s3_delete_loop_batches split: prod.splits)





subsection \<open>Uploading\<close>


lemma os_Close_eq: "os_Close name w = (failure (ask w), logged (SysClose name) w)"
  by (simp add: os_Close_def)

lemma CreateTemp_ok:
  assumes "os_CreateTemp dir w = (Inr tmp, w')"
  shows "tmp = temp_name dir (rnd (ask w))" "node_at (tree w) (segs_of tmp) = None"
    "tree w' = AList.update (segs_of tmp) (File [] (now w)) (tree w)"
    "answers w' = answers w" "log w' = log w @ [SysCreateTemp dir]"
  using assms
  by (auto simp: os_CreateTemp_def Let_def logged_def
      split: option.splits node.splits if_splits)


lemma io_Copy_ok:
  assumes "io_Copy name r w = (Inr n, w')"
  shows "tree w' = AList.update (segs_of name) (File (content r) (now w)) (tree w)"
    "answers w' = answers w" "log w' = log w @ [SysWrite name]" "\<not> read_fails r"
    "n = length (content r)"
  using assms
  by (auto simp: io_Copy_def os_Write_def Let_def logged_def
      split: option.splits prod.splits sum.splits if_splits)


lemma Rename_ok:
  assumes "os_Rename old new w = (None, w')"
  shows "\<exists>n. node_at (tree w) (segs_of old) = Some n \<and>
           tree w' = (if segs_of old = segs_of new then tree w
                      else AList.update (segs_of new) n (AList.delete (segs_of old) (tree w)))"
    "answers w' = answers w" "log w' = log w @ [SysRename old new]"
  using assms
  by (auto simp: os_Rename_def Let_def logged_def
      split: option.splits prod.splits sum.splits if_splits)


lemma Remove_effect:
  "answers (snd (os_Remove name w)) = answers w"
  "log (snd (os_Remove name w)) = log w @ [SysRemove name]"
  "tree (snd (os_Remove name w)) = tree w
     \<or> tree (snd (os_Remove name w)) = AList.delete (segs_of name) (tree w)"
  by (auto simp: os_Remove_def Let_def logged_def
      split: option.splits prod.splits sum.splits if_splits node.splits)


lemma cleanup_effect:
  "answers (upload_cleanup tmp w) = answers w"
  "log (upload_cleanup tmp w) = log w @ [SysClose tmp, SysRemove tmp]"
  "tree (upload_cleanup tmp w) = tree w
     \<or> tree (upload_cleanup tmp w) = AList.delete (segs_of tmp) (tree w)"
  using Remove_effect[of tmp "logged (SysClose tmp) w"]
  by (auto simp: upload_cleanup_def os_Close_def logged_def)

lemma upload_write_ok:
  assumes "upload_write md5hex tmp fp body w = (Inr out, w')"
  shows "Location out = fp" "UETag out = md5hex (content body)" "answers w' = answers w"
    "log w' = log w @ [SysWrite tmp, SysClose tmp, SysRename tmp fp]"
    "segs_of tmp \<noteq> segs_of fp \<Longrightarrow> segs_of tmp \<noteq> [] \<Longrightarrow>
       node_at (tree w') (segs_of fp) = Some (File (content body) (now w))
       \<and> node_at (tree w') (segs_of tmp) = None"
proof -
  from assms obtain n w1 w2 where
    s1: "io_Copy tmp body w = (Inr n, w1)" and
    s2: "os_Close tmp w1 = (None, w2)" and
    s3: "os_Rename tmp fp w2 = (None, w')" and
    o: "out = \<lparr> Location = fp, VersionID = [], UETag = md5hex (content body) \<rparr>"
    by (auto simp: upload_write_def split: prod.splits sum.splits option.splits)
  note c = io_Copy_ok[OF s1]
  have w2: "w2 = logged (SysClose tmp) w1" using s2 by (simp add: os_Close_def)
  note r = Rename_ok[OF s3]
  show "Location out = fp" "UETag out = md5hex (content body)" using o by simp_all
  show "answers w' = answers w" using c(2) r(2) w2 by (simp add: logged_def)
  show "log w' = log w @ [SysWrite tmp, SysClose tmp, SysRename tmp fp]"
    using c(3) r(3) w2 by (simp add: logged_def)
  assume ne: "segs_of tmp \<noteq> segs_of fp" and nr: "segs_of tmp \<noteq> []"
  have t2: "tree w2 = AList.update (segs_of tmp) (File (content body) (now w)) (tree w)"
    using c(1) w2 by (simp add: logged_def)
  have "segs_of fp \<noteq> []"
    using s3 ne by (auto simp: os_Rename_def Let_def split: option.splits if_splits)
  then show "node_at (tree w') (segs_of fp) = Some (File (content body) (now w))
       \<and> node_at (tree w') (segs_of tmp) = None"
    using r(1) ne nr t2 by (auto simp: node_at_update node_at_delete)
qed



lemma logged_fields [simp]:
  "tree (logged c w) = tree w" "answers (logged c w) = answers w"
  "log (logged c w) = log w @ [c]"
  by (simp_all add: logged_def)

lemma MkdirAll_effect:
  "answers (snd (os_MkdirAll name w)) = answers w"
  "log (snd (os_MkdirAll name w)) = log w @ [SysMkdirAll name]"
  by (auto simp: os_MkdirAll_def Let_def logged_def split: option.splits prod.splits)

lemma Upload_ok:
  assumes up: "Upload md5hex f c input w = (Inr out, w')"
    and fp: "fullPath f (UKey input) = Inr fp" and b: "Body input = Some body"
  shows "Location out = fp" "UETag out = md5hex (content body)" "answers w' = answers w"
    "segs_of (temp_name (Dir fp) (rnd (answers w (Suc (now w))))) \<noteq> segs_of fp \<Longrightarrow>
       \<exists>t. node_at (tree w') (segs_of fp) = Some (File (content body) t)"
proof -
  from up fp b obtain w1 tmp w2 w3 where
    s1: "os_MkdirAll (Dir fp) w = (None, w1)" and
    s2: "os_CreateTemp (Dir fp) w1 = (Inr tmp, w2)" and
    s3: "upload_write md5hex tmp fp body w2 = (Inr out, w3)" and
    s4: "w' = upload_cleanup tmp w3"
    by (auto simp: Upload_def split: if_splits option.splits prod.splits sum.splits)
  have m: "answers w1 = answers w" "log w1 = log w @ [SysMkdirAll (Dir fp)]"
    using MkdirAll_effect[of "Dir fp" w] s1 by simp_all
  note ct = CreateTemp_ok[OF s2]
  note uw = upload_write_ok[OF s3]
  note cl = cleanup_effect[of tmp w3]
  show "Location out = fp" "UETag out = md5hex (content body)" using uw by simp_all
  show "answers w' = answers w" using s4 cl(1) uw(3) ct(4) m(1) by simp
  assume ne: "segs_of (temp_name (Dir fp) (rnd (answers w (Suc (now w))))) \<noteq> segs_of fp"
  have "tmp = temp_name (Dir fp) (rnd (answers w (Suc (now w))))"
    using ct(1) m by (simp add: ask_def now_def)
  then have ne': "segs_of tmp \<noteq> segs_of fp" using ne by simp
  have nr: "segs_of tmp \<noteq> []" using ct(2) by auto
  from uw(5)[OF ne' nr] have "node_at (tree w3) (segs_of fp) = Some (File (content body) (now w2))"
    by simp
  moreover have "node_at (tree w') (segs_of fp) = node_at (tree w3) (segs_of fp)"
    using cl(3) s4 ne' by (auto simp: node_at_delete)
  ultimately show "\<exists>t. node_at (tree w') (segs_of fp) = Some (File (content body) t)" by simp
qed

lemma WriteAt_all:
  "room sk = None \<Longrightarrow>
   WriteAt sk bytes 0 = ((length bytes, False), sk\<lparr> buf := bytes @ drop (length bytes) (buf sk) \<rparr>)"
  by (simp add: WriteAt_def)

lemma Download_file:
  assumes "fullPath f key = Inr fp" "node_at (tree w) (segs_of fp) = Some (File bytes t)"
    "healthy w" "done_at c = None" "room sk = None"
  shows "fst (Download f c key sk w) = (length bytes, None)"
    "fst (snd (Download f c key sk w)) = sk\<lparr> buf := bytes @ drop (length bytes) (buf sk) \<rparr>"
    "tree (snd (snd (Download f c key sk w))) = tree w"
proof -
  have a0: "failure (ask w) = None" using assms(3) by (rule healthy_ask)
  have op: "os_Open fp w = (Inr (File bytes t), logged (SysOpen fp) w)"
    using a0 assms(2) by (simp add: os_Open_def Let_def logged_def)
  have a1: "failure (ask (logged (SysOpen fp) w)) = None"
    using assms(3) by (simp add: healthy_ask)
  have rd: "os_ReadAll fp (File bytes t) (logged (SysOpen fp) w)
      = (Inr bytes, logged (SysRead fp) (logged (SysOpen fp) w))"
    using a1 by (simp add: os_ReadAll_def Let_def)
  have dr: "download_read c fp (File bytes t) sk (logged (SysOpen fp) w)
      = ((length bytes, None), sk\<lparr> buf := bytes @ drop (length bytes) (buf sk) \<rparr>,
         logged (SysRead fp) (logged (SysOpen fp) w))"
    using rd assms(4,5) by (simp add: download_read_def ctx_Err_def ctx_done_def WriteAt_all)
  have d: "Download f c key sk w
      = ((length bytes, None), sk\<lparr> buf := bytes @ drop (length bytes) (buf sk) \<rparr>,
         logged (SysClose fp) (logged (SysRead fp) (logged (SysOpen fp) w)))"
    using assms(1) op dr by (simp add: Download_def os_Close_def)
  show "fst (Download f c key sk w) = (length bytes, None)"
    "fst (snd (Download f c key sk w)) = sk\<lparr> buf := bytes @ drop (length bytes) (buf sk) \<rparr>"
    "tree (snd (snd (Download f c key sk w))) = tree w"
    unfolding d by (simp_all add: logged_def)
qed

lemma GetObject_file:
  assumes "fullPath f key = Inr fp" "node_at (tree w) (segs_of fp) = Some (File bytes t)"
    "healthy w"
  shows "fst (GetObject f c key w) = Inr \<lparr> content = bytes, read_fails = False \<rparr>"
  using assms healthy_ask[OF assms(3)]
  by (simp add: GetObject_def os_Open_def Let_def reader_of_def)

lemma HeadObject_file:
  assumes "fullPath f key = Inr fp" "node_at (tree w) (segs_of fp) = Some (File bytes t)"
    "healthy w"
  shows "fst (HeadObject f c key w) =
     Inr (zero_info\<lparr> Key := key, Size := length bytes, ContentType := detectContentType key,
            LastModified := t \<rparr>)"
  using assms healthy_ask[OF assms(3)]
  by (simp add: HeadObject_def os_Stat_def Let_def)

lemma S3_Upload_ok:
  assumes "S3_Upload s c input cl = (Inr out, cl1)" "Body input = Some body"
  shows "UKey input \<noteq> []" "replies cl1 = replies cl"
    "\<exists>ob. map_of (stored cl1) (UKey input) = Some ob \<and> obody ob = content body"
  using assms
  by (auto simp: S3_Upload_def uploader_Upload_def Let_def called_def update_conv'
      split: if_splits option.splits prod.splits sum.splits)

lemma S3_read_stored:
  assumes "key \<noteq> []" "map_of (stored cl) key = Some ob" "reachable cl" "room sk = None"
  shows "fst (S3_Download s c key sk cl) = (length (obody ob), None)"
    "fst (snd (S3_Download s c key sk cl)) = sk\<lparr> buf := obody ob @ drop (length (obody ob)) (buf sk) \<rparr>"
    "fst (S3_GetObject s c key cl) = Inr \<lparr> content = obody ob, read_fails = False \<rparr>"
proof -
  have f0: "sdk_failure (heard cl) = None" using assms(3) by (simp add: reachable_def heard_def)
  show "fst (S3_Download s c key sk cl) = (length (obody ob), None)"
    "fst (snd (S3_Download s c key sk cl)) = sk\<lparr> buf := obody ob @ drop (length (obody ob)) (buf sk) \<rparr>"
    using assms f0
    by (simp_all add: S3_Download_def downloader_Download_def Let_def called_def WriteAt_all)
  show "fst (S3_GetObject s c key cl) = Inr \<lparr> content = obody ob, read_fails = False \<rparr>"
    using assms f0 by (simp add: S3_GetObject_def client_GetObject_def Let_def called_def)
qed

text \<open>
  C2. After an \<open>Upload\<close> that succeeded, the file of the key holds exactly the bytes of
  the body, \<open>Download\<close> writes them at offset 0 of the caller's sink and returns their
  number, and \<open>GetObject\<close> returns them; the same holds on the networked backend. The
  reads are made while no call fails and the context is not done, into a sink that takes
  the bytes. The temporary file that \<^verbatim>\<open>os.CreateTemp\<close> made is assumed not to be the
  file of the key itself.
\<close>

theorem Upload_Download_roundtrip:
  assumes "healthy w" and "reachable cl"
    and "fullPath f (UKey input) = Inr fp" and "Body input = Some body"
    and "Upload md5hex f c input w = (Inr out, w1)"
    and "segs_of (temp_name (Dir fp) (rnd (answers w (Suc (now w))))) \<noteq> segs_of fp"
    and "S3_Upload s c input cl = (Inr out2, cl1)"
    and "done_at c' = None" and "room sk = None"
  shows "(\<exists>t. node_at (tree w1) (segs_of fp) = Some (File (content body) t))
    \<and> fst (Download f c' (UKey input) sk w1) = (length (content body), None)
    \<and> buf (fst (snd (Download f c' (UKey input) sk w1)))
        = content body @ drop (length (content body)) (buf sk)
    \<and> fst (GetObject f c' (UKey input) w1) = Inr \<lparr> content = content body, read_fails = False \<rparr>
    \<and> fst (S3_Download s c' (UKey input) sk cl1) = (length (content body), None)
    \<and> buf (fst (snd (S3_Download s c' (UKey input) sk cl1)))
        = content body @ drop (length (content body)) (buf sk)
    \<and> fst (S3_GetObject s c' (UKey input) cl1)
        = Inr \<lparr> content = content body, read_fails = False \<rparr>"
proof -
  note u = Upload_ok[OF assms(5,3,4)]
  from u(4)[OF assms(6)] obtain t where
    n: "node_at (tree w1) (segs_of fp) = Some (File (content body) t)" by blast
  have h1: "healthy w1" using assms(1) u(3) by (simp add: healthy_def)
  note d = Download_file[OF assms(3) n h1 assms(8,9)]
  note g = GetObject_file[OF assms(3) n h1, of c']
  note su = S3_Upload_ok[OF assms(7,4)]
  from su(3) obtain ob where ob: "map_of (stored cl1) (UKey input) = Some ob"
      "obody ob = content body" by blast
  have r1: "reachable cl1" using assms(2) su(2) by (simp add: reachable_def)
  note sr = S3_read_stored[OF su(1) ob(1) r1 assms(9), of s c']
  show ?thesis using n d g sr ob(2) by simp
qed


theorem Upload_Download_roundtrip_witness:
  "fst (Download data_store background ''c/1'' marked_sink
          (snd (Upload example_md5 data_store background (upload_of ''c/1'' ''hello'') two_files)))
     = (5, None)
   \<and> buf (fst (snd (Download data_store background ''c/1'' marked_sink
          (snd (Upload example_md5 data_store background (upload_of ''c/1'' ''hello'') two_files)))))
     = ''helloxxxx''
   \<and> fst (GetObject data_store background ''c/1''
          (snd (Upload example_md5 data_store background (upload_of ''c/1'' ''hello'') two_files)))
     = Inr \<lparr> content = ''hello'', read_fails = False \<rparr>
   \<and> fst (S3_Download blob_bucket background ''c/1'' marked_sink
          (snd (S3_Upload blob_bucket background (upload_of ''c/1'' ''hello'') two_objects)))
     = (5, None)
   \<and> buf (fst (snd (S3_Download blob_bucket background ''c/1'' marked_sink
          (snd (S3_Upload blob_bucket background (upload_of ''c/1'' ''hello'') two_objects)))))
     = ''helloxxxx''"
proof -
  let ?input = "upload_of ''c/1'' ''hello''"
  let ?body = "\<lparr> content = ''hello'', read_fails = False \<rparr>"
  let ?up = "Upload example_md5 data_store background ?input two_files"
  let ?s3up = "S3_Upload blob_bucket background ?input two_objects"
  have h: "healthy two_files" by (simp add: healthy_def two_files_def quiet_def)
  have r: "reachable two_objects" by (simp add: reachable_def two_objects_def silent_def)
  have k: "UKey ?input = ''c/1''" "Body ?input = Some ?body" by (simp_all add: upload_of_def)
  have fp: "fullPath data_store (UKey ?input) = Inr ''/data/c/1''" unfolding k by code_simp
  have u: "fst ?up = Inr \<lparr> Location = ''/data/c/1'', VersionID = [],
                          UETag = ''5d41402abc4b2a76b9719d911017c592'' \<rparr>"
    by code_simp
  have u': "?up = (Inr \<lparr> Location = ''/data/c/1'', VersionID = [],
                          UETag = ''5d41402abc4b2a76b9719d911017c592'' \<rparr>, snd ?up)"
    using u by (metis prod.collapse)
  have ne: "segs_of (temp_name (Dir ''/data/c/1'') (rnd (answers two_files (Suc (now two_files)))))
      \<noteq> segs_of ''/data/c/1''" by code_simp
  have s: "fst ?s3up = Inr \<lparr> Location = ''https://blobs.s3.amazonaws.com/c/1'', VersionID = [],
                          UETag = ''etag'' \<rparr>"
    by code_simp
  have s': "?s3up = (Inr \<lparr> Location = ''https://blobs.s3.amazonaws.com/c/1'', VersionID = [],
                          UETag = ''etag'' \<rparr>, snd ?s3up)"
    using s by (metis prod.collapse)
  have c: "done_at background = None" by (simp add: background_def)
  have m: "room marked_sink = None" "buf marked_sink = ''xxxxxxxxx''"
    by (simp_all add: marked_sink_def)
  from Upload_Download_roundtrip[OF h r fp k(2) u' ne s' c m(1)]
  show ?thesis using k(1) m(2) by simp
qed

text \<open>
  C4, as the code has it. After an \<open>Upload\<close> that succeeded, \<open>HeadObject\<close> on the local
  backend answers the size of the body (5 for \<^verbatim>\<open>hello\<close>) and an empty \<open>ETag\<close>: it reads
  the file's information only, and the hash is neither stored nor computed again. The
  hash of the bytes is the \<open>ETag\<close> that \<open>Upload\<close> itself returned.
\<close>

theorem HeadObject_after_Upload:
  assumes "healthy w"
    and "fullPath f (UKey input) = Inr fp" and "Body input = Some body"
    and "Upload md5hex f c input w = (Inr out, w1)"
    and "segs_of (temp_name (Dir fp) (rnd (answers w (Suc (now w))))) \<noteq> segs_of fp"
  shows "\<exists>info. fst (HeadObject f c' (UKey input) w1) = Inr info
           \<and> Size info = length (content body) \<and> ETag info = []
           \<and> UETag out = md5hex (content body)"
proof -
  note u = Upload_ok[OF assms(4,2,3)]
  from u(4)[OF assms(5)] obtain t where
    n: "node_at (tree w1) (segs_of fp) = Some (File (content body) t)" by blast
  have h1: "healthy w1" using assms(1) u(3) by (simp add: healthy_def)
  from HeadObject_file[OF assms(2) n h1, of c'] u(2)
  show ?thesis by (simp add: zero_info_def)
qed

theorem HeadObject_after_Upload_witness:
  "\<exists>info. fst (HeadObject data_store background ''c/1''
          (snd (Upload example_md5 data_store background (upload_of ''c/1'' ''hello'') two_files)))
        = Inr info
      \<and> Size info = 5 \<and> ETag info = []"
proof -
  let ?input = "upload_of ''c/1'' ''hello''"
  let ?body = "\<lparr> content = ''hello'', read_fails = False \<rparr>"
  let ?up = "Upload example_md5 data_store background ?input two_files"
  have h: "healthy two_files" by (simp add: healthy_def two_files_def quiet_def)
  have k: "UKey ?input = ''c/1''" "Body ?input = Some ?body" by (simp_all add: upload_of_def)
  have fp: "fullPath data_store (UKey ?input) = Inr ''/data/c/1''" unfolding k by code_simp
  have u: "fst ?up = Inr \<lparr> Location = ''/data/c/1'', VersionID = [],
                          UETag = ''5d41402abc4b2a76b9719d911017c592'' \<rparr>"
    by code_simp
  have u': "?up = (Inr \<lparr> Location = ''/data/c/1'', VersionID = [],
                          UETag = ''5d41402abc4b2a76b9719d911017c592'' \<rparr>, snd ?up)"
    using u by (metis prod.collapse)
  have ne: "segs_of (temp_name (Dir ''/data/c/1'') (rnd (answers two_files (Suc (now two_files)))))
      \<noteq> segs_of ''/data/c/1''" by code_simp
  from HeadObject_after_Upload[OF h fp k(2) u' ne, of background]
  show ?thesis using k(1) by (auto simp: eval_nat_numeral)
qed

text \<open>
  C4 as stated fails: after the upload of \<^verbatim>\<open>hello\<close> the \<open>ETag\<close> that \<open>HeadObject\<close>
  answers is empty, while the hash of \<^verbatim>\<open>hello\<close>, which \<open>Upload\<close> returned, is not.
\<close>

theorem HeadObject_after_Upload_counterexample:
  "fst (Upload example_md5 data_store background (upload_of ''c/1'' ''hello'') two_files)
     = Inr \<lparr> Location = ''/data/c/1'', VersionID = [],
             UETag = ''5d41402abc4b2a76b9719d911017c592'' \<rparr>
   \<and> fst (HeadObject data_store background ''c/1''
          (snd (Upload example_md5 data_store background (upload_of ''c/1'' ''hello'') two_files)))
     = Inr \<lparr> Key = ''c/1'', Size = 5, ContentType = ''application/octet-stream'', ETag = [],
             LastModified = 2, Metadata = [] \<rparr>
   \<and> example_md5 ''hello'' = ''5d41402abc4b2a76b9719d911017c592''"
  by code_simp

subsection \<open>Listing\<close>


lemma sort_mset_cong: "mset xs = mset ys \<Longrightarrow> sort xs = sort ys"
  by (rule properties_for_sort) simp_all

lemma map_sort_key: "map f (sort_key f xs) = sort (map f xs)"
  by (rule properties_for_sort[symmetric]) (simp_all add: sorted_sort_key)

lemma walk_collects:
  assumes "healthy w" "done_at c = None"
  shows "fst (walk c base pre sa visits acc w) =
           (None, acc @ map (info_of base)
                    (filter (\<lambda>(p, n). is_file (Some n) \<and> matches pre sa (Rel base p)) visits))"
  using assms(1)
proof (induction visits arbitrary: acc w)
  case Nil
  then show ?case by simp
next
  case (Cons v visits)
  obtain p n where v: "v = (p, n)" by (cases v)
  have live: "ctx_done c (now w) = None" using assms(2) by (simp add: ctx_done_def)
  have ok: "failure (ask w) = None" using Cons.prems by (rule healthy_ask)
  show ?case
  proof (cases n)
    case Directory
    have "healthy (logged (SysReadDir p) w)" using Cons.prems by simp
    from Cons.IH[OF this] show ?thesis
      using v Directory ok by (simp add: os_ReadDir_def is_file_def)
  next
    case (File bytes m)
    have h1: "healthy (logged (SysLstat p) w)" using Cons.prems by simp
    show ?thesis
    proof (cases "matches pre sa (Rel base p)")
      case True
      then have c1: "(pre \<noteq> [] \<and> \<not> prefix pre (Rel base p)) = False"
        and c2: "(sa \<noteq> [] \<and> Rel base p \<le> sa) = False"
        by (auto simp: matches_def)
      have i: "info_of base (p, File bytes m) =
          zero_info\<lparr> Key := Rel base p, Size := length bytes,
            ContentType := detectContentType (Rel base p), LastModified := m \<rparr>"
        by (simp add: info_of_def)
      have f: "is_file (Some (File bytes m))" by (simp add: is_file_def)
      have "walk c base pre sa ((p, File bytes m) # visits) acc w =
          walk c base pre sa visits (acc @ [info_of base (p, File bytes m)]) (logged (SysLstat p) w)"
        using ok live by (simp add: c1 c2 i os_Lstat_def Let_def)
      then show ?thesis
        using v File True f Cons.IH[OF h1] by simp
    next
      case False
      then have c: "(pre \<noteq> [] \<and> \<not> prefix pre (Rel base p)) \<or> (sa \<noteq> [] \<and> Rel base p \<le> sa)"
        by (auto simp: matches_def)
      have "walk c base pre sa ((p, File bytes m) # visits) acc w =
          walk c base pre sa visits acc w"
        using live c by (auto simp: Let_def)
      then show ?thesis
        using v File False Cons.IH[OF Cons.prems] by simp
    qed
  qed
qed

lemma walked_keys:
  "mset (map Key (map (info_of base)
           (filter (\<lambda>(p, n). is_file (Some n) \<and> matches pre sa (Rel base p))
              (walk_order base t))))
   = mset (filter (matches pre sa) (stored_keys base t))"
proof -
  let ?sel = "\<lambda>(p, n). is_file (Some n) \<and> matches pre sa (Rel base p)"
  let ?in = "\<lambda>(p, n). prefix base p"
  have k: "\<And>xs. map Key (map (info_of base) (filter ?sel xs))
      = map (\<lambda>e. Rel base (fst e)) (filter ?sel xs)"
    unfolding map_map
    by (rule map_cong) (auto simp: info_of_def is_file_def zero_info_def split: node.splits)
  have root: "filter ?sel (if base = [] then [([], Directory)] else []) = []"
    by (simp add: is_file_def)
  have A: "map Key (map (info_of base) (filter ?sel (walk_order base t)))
      = map (\<lambda>e. Rel base (fst e)) (filter ?sel (sort_key fst (filter ?in t)))"
    unfolding k by (simp add: walk_order_def root)
  have B: "mset (map (\<lambda>e. Rel base (fst e)) (filter ?sel (sort_key fst (filter ?in t))))
      = image_mset (\<lambda>e. Rel base (fst e)) (filter_mset ?sel (mset (filter ?in t)))"
    by simp
  have "mset (map Key (map (info_of base) (filter ?sel (walk_order base t))))
      = image_mset (\<lambda>e. Rel base (fst e)) (filter_mset ?sel (mset (filter ?in t)))"
    using arg_cong[OF A, of mset] B by (rule trans)
  also have "\<dots> = mset (filter (matches pre sa) (stored_keys base t))"
    unfolding stored_keys_def
    by (induction t) (auto simp: is_file_def)
  finally show ?thesis .
qed



lemma list_page_keys:
  "map Key (Objects (list_page m objs)) = take (nat m) (sort (map Key objs))"
  "IsTruncated (list_page m objs) = (int (length objs) > m)"
  "NextMarker (list_page m objs) =
     (if Objects (list_page m objs) = [] then [] else Key (last (Objects (list_page m objs))))"
proof -
  have p: "Objects (list_page m objs) = take (nat m) (sort_key Key objs)"
    by (auto simp: list_page_def Let_def)
  show "map Key (Objects (list_page m objs)) = take (nat m) (sort (map Key objs))"
    unfolding p by (simp add: map_sort_key flip: take_map)
  show "IsTruncated (list_page m objs) = (int (length objs) > m)"
    by (auto simp: list_page_def Let_def)
  show "NextMarker (list_page m objs) =
     (if Objects (list_page m objs) = [] then [] else Key (last (Objects (list_page m objs))))"
    by (auto simp: list_page_def Let_def)
qed

lemma List_walked:
  assumes "healthy w" "done_at c = None" "node_at (tree w) (segs_of (basePath f)) \<noteq> None"
  shows "fst (List f c input w) =
     Inr (list_page (if MaxKeys input \<le> 0 then 1000 else MaxKeys input)
            (map (info_of (segs_of (basePath f)))
               (filter (\<lambda>(p, n). is_file (Some n)
                          \<and> matches (Prefix input) (StartAfter input) (Rel (segs_of (basePath f)) p))
                  (walk_order (segs_of (basePath f)) (tree w)))))"
proof -
  let ?base = "segs_of (basePath f)"
  let ?W = "walk c ?base (Prefix input) (StartAfter input) (walk_order ?base (tree w)) [] w"
  have wd: "WalkDir c (basePath f) (Prefix input) (StartAfter input) w = ?W"
    using assms(3) by (auto simp: WalkDir_def Let_def)
  have "fst ?W = (None, [] @ map (info_of ?base)
               (filter (\<lambda>(p, n). is_file (Some n)
                          \<and> matches (Prefix input) (StartAfter input) (Rel ?base p))
                  (walk_order ?base (tree w))))"
    by (rule walk_collects[OF assms(1,2)])
  then show ?thesis
    unfolding List_def Let_def wd by (cases ?W) auto
qed

text \<open>
  C3. While no call fails and the context is not done, \<open>List\<close> on the local backend
  answers the keys of all files below the base that match the prefix and are greater
  than \<open>startAfter\<close>, sorted, and of this sorted list the first \<open>maxKeys\<close> (1000 when
  \<open>maxKeys\<close> is not positive); \<open>IsTruncated\<close> says whether there were more matches than
  that, and \<open>NextMarker\<close> is the last key of the page. With the five files
  \<^verbatim>\<open>a/1\<close> to \<^verbatim>\<open>a/5\<close> the two listings of the claim come out as it says.
\<close>

theorem List_sorts_then_truncates:
  assumes "healthy w" and "done_at c = None"
    and "node_at (tree w) (segs_of (basePath f)) \<noteq> None"
  shows "(\<exists>out. fst (List f c input w) = Inr out
           \<and> map Key (Objects out) =
               take (nat (if MaxKeys input \<le> 0 then 1000 else MaxKeys input))
                 (sort (filter (matches (Prefix input) (StartAfter input))
                          (stored_keys (segs_of (basePath f)) (tree w))))
           \<and> IsTruncated out =
               (int (length (filter (matches (Prefix input) (StartAfter input))
                               (stored_keys (segs_of (basePath f)) (tree w))))
                  > (if MaxKeys input \<le> 0 then 1000 else MaxKeys input))
           \<and> NextMarker out = (if Objects out = [] then [] else Key (last (Objects out))))
         \<and> map_sum id (\<lambda>out. (map Key (Objects out), IsTruncated out, NextMarker out))
             (fst (List data_store background
                     \<lparr> Prefix = ''a/'', MaxKeys = 2, StartAfter = [] \<rparr> five_files))
             = Inr ([''a/1'', ''a/2''], True, ''a/2'')
         \<and> map_sum id (\<lambda>out. (map Key (Objects out), IsTruncated out, NextMarker out))
             (fst (List data_store background
                     \<lparr> Prefix = ''a/'', MaxKeys = 0, StartAfter = ''a/2'' \<rparr> five_files))
             = Inr ([''a/3'', ''a/4'', ''a/5''], False, ''a/5'')"
proof (intro conjI)
  let ?base = "segs_of (basePath f)"
  let ?m = "if MaxKeys input \<le> 0 then 1000 else MaxKeys input"
  let ?objs = "map (info_of ?base)
               (filter (\<lambda>(p, n). is_file (Some n)
                          \<and> matches (Prefix input) (StartAfter input) (Rel ?base p))
                  (walk_order ?base (tree w)))"
  let ?keys = "filter (matches (Prefix input) (StartAfter input)) (stored_keys ?base (tree w))"
  have r: "fst (List f c input w) = Inr (list_page ?m ?objs)"
    by (rule List_walked[OF assms])
  have ms: "mset (map Key ?objs) = mset ?keys" by (rule walked_keys)
  have s: "sort (map Key ?objs) = sort ?keys" by (rule sort_mset_cong[OF ms])
  have l: "length ?objs = length ?keys"
    using mset_eq_length[OF ms] by simp
  show "\<exists>out. fst (List f c input w) = Inr out
           \<and> map Key (Objects out) = take (nat ?m) (sort ?keys)
           \<and> IsTruncated out = (int (length ?keys) > ?m)
           \<and> NextMarker out = (if Objects out = [] then [] else Key (last (Objects out)))"
    by (rule exI[of _ "list_page ?m ?objs"])
       (simp only: r list_page_keys(1,2) s l list_page_keys(3)[of ?m ?objs] simp_thms)
next
  show "map_sum id (\<lambda>out. (map Key (Objects out), IsTruncated out, NextMarker out))
             (fst (List data_store background
                     \<lparr> Prefix = ''a/'', MaxKeys = 2, StartAfter = [] \<rparr> five_files))
             = Inr ([''a/1'', ''a/2''], True, ''a/2'')"
    by code_simp
next
  show "map_sum id (\<lambda>out. (map Key (Objects out), IsTruncated out, NextMarker out))
             (fst (List data_store background
                     \<lparr> Prefix = ''a/'', MaxKeys = 0, StartAfter = ''a/2'' \<rparr> five_files))
             = Inr ([''a/3'', ''a/4'', ''a/5''], False, ''a/5'')"
    by code_simp
qed



theorem List_sorts_then_truncates_witness:
  "\<exists>out. fst (List data_store background \<lparr> Prefix = ''a/'', MaxKeys = 2, StartAfter = [] \<rparr>
                five_files) = Inr out
      \<and> map Key (Objects out) = [''a/1'', ''a/2''] \<and> IsTruncated out \<and> NextMarker out = ''a/2''"
proof -
  let ?input = "\<lparr> Prefix = ''a/'', MaxKeys = 2, StartAfter = [] \<rparr>"
  have h: "healthy five_files" by (simp add: healthy_def five_files_def quiet_def)
  have c: "done_at background = None" by (simp add: background_def)
  have b: "node_at (tree five_files) (segs_of (basePath data_store)) \<noteq> None" by code_simp
  have k: "take (nat (if MaxKeys ?input \<le> 0 then 1000 else MaxKeys ?input))
             (sort (filter (matches (Prefix ?input) (StartAfter ?input))
                      (stored_keys (segs_of (basePath data_store)) (tree five_files))))
           = [''a/1'', ''a/2'']"
    by code_simp
  have t: "(int (length (filter (matches (Prefix ?input) (StartAfter ?input))
                               (stored_keys (segs_of (basePath data_store)) (tree five_files))))
                  > (if MaxKeys ?input \<le> 0 then 1000 else MaxKeys ?input)) = True"
    by code_simp
  from List_sorts_then_truncates[OF h c b, of ?input]
  have "\<exists>out. fst (List data_store background ?input five_files) = Inr out
      \<and> map Key (Objects out) = [''a/1'', ''a/2''] \<and> IsTruncated out = True
      \<and> NextMarker out = (if Objects out = [] then [] else Key (last (Objects out)))"
    unfolding k t by (rule conjunct1)
  then obtain out where o: "fst (List data_store background ?input five_files) = Inr out"
      "map Key (Objects out) = [''a/1'', ''a/2'']" "IsTruncated out"
      "NextMarker out = (if Objects out = [] then [] else Key (last (Objects out)))"
    by auto
  have ne: "Objects out \<noteq> []" using o(2) by auto
  then have "Key (last (Objects out)) = last (map Key (Objects out))" by (simp add: last_map)
  then have m: "NextMarker out = ''a/2''" using o(2,4) ne by simp
  show ?thesis
    by (rule exI[of _ out]) (simp add: o(1,2,3) m)
qed

subsection \<open>Rejection of keys, on every operation\<close>

lemma Delete_log:
  "fullPath f key = Inr fp \<Longrightarrow> log (snd (Delete f c key w)) = log w @ [SysRemove fp]"
  "fullPath f key = Inl e \<Longrightarrow> snd (Delete f c key w) = w"
  using Remove_effect(2)[of fp w]
  by (auto simp: Delete_def split: prod.splits option.splits)

lemma delete_run_log:
  "log (snd (delete_run f c ks fk w)) = log w @ map SysRemove (paths_of f ks)"
proof (induction ks arbitrary: fk w)
  case Nil
  then show ?case by (simp add: paths_of_def)
next
  case (Cons k ks)
  show ?case
  proof (cases "fullPath f k")
    case (Inl e)
    have p: "paths_of f (k # ks) = paths_of f ks" using Inl by (simp add: paths_of_def)
    have "Delete f c k w = (Some e, w)" using Inl by (simp add: Delete_def)
    then show ?thesis using Cons.IH p by simp
  next
    case (Inr fp)
    have p: "paths_of f (k # ks) = fp # paths_of f ks" using Inr by (simp add: paths_of_def)
    obtain r w1 where d: "Delete f c k w = (r, w1)" by (cases "Delete f c k w")
    then have "log w1 = log w @ [SysRemove fp]" using Delete_log(1)[OF Inr, of c w] by simp
    then show ?thesis using Cons.IH[of _ w1] p d by (cases r) simp_all
  qed
qed

lemma delete_run_keeps: "set fk \<subseteq> set (fst (delete_run f c ks fk w))"
proof (induction ks arbitrary: fk w)
  case Nil
  then show ?case by simp
next
  case (Cons k ks)
  obtain r w1 where d: "Delete f c k w = (r, w1)" by (cases "Delete f c k w")
  show ?case
  proof (cases r)
    case None
    then show ?thesis using d Cons.IH[of fk w1] by simp
  next
    case (Some e)
    then show ?thesis using d Cons.IH[of fk w1] Cons.IH[of "fk @ [k]" w1] by auto
  qed
qed

lemma delete_run_rejected:
  assumes "fullPath f key = Inl e" "err_is e ErrInvalidBlobKey" "key \<in> set ks"
  shows "key \<in> set (fst (delete_run f c ks fk w))"
  using assms(3)
proof (induction ks arbitrary: fk w)
  case Nil
  then show ?case by simp
next
  case (Cons k ks)
  have nf: "\<not> err_is e ErrBlobNotFound" using assms(2) by (cases e) auto
  show ?case
  proof (cases "k = key")
    case True
    have "Delete f c k w = (Some e, w)" using assms(1) True by (simp add: Delete_def)
    then have "fst (delete_run f c (k # ks) fk w) = fst (delete_run f c ks (fk @ [k]) w)"
      using nf by simp
    then show ?thesis using delete_run_keeps[of "fk @ [k]" f c ks w] True by auto
  next
    case False
    then have "key \<in> set ks" using Cons.prems by simp
    obtain r w1 where d: "Delete f c k w = (r, w1)" by (cases "Delete f c k w")
    show ?thesis
    proof (cases r)
      case None
      then show ?thesis using d Cons.IH[OF \<open>key \<in> set ks\<close>, of fk w1] by simp
    next
      case (Some e')
      then show ?thesis
        using d Cons.IH[OF \<open>key \<in> set ks\<close>, of fk w1]
          Cons.IH[OF \<open>key \<in> set ks\<close>, of "fk @ [k]" w1] by auto
    qed
  qed
qed

lemma s3_calls_more:
  "calls (snd (S3_Upload s c (upload_of (k # ks) bytes) cl)) = calls cl @ [CallUpload (k # ks)]"
  "calls (snd (S3_Copy s c (k # ks) (d # ds) cl)) = calls cl @ [CallCopyObject (k # ks) (d # ds)]"
  by (simp_all add: S3_Upload_def uploader_Upload_def upload_of_def S3_Copy_def
      client_CopyObject_def Let_def called_def
      split: option.splits prod.splits sum.splits)

text \<open>
  C1, as the code has it. On the local backend a key that is empty, absolute or leaves the
  root after normalization is rejected by \<open>Download\<close>, \<open>GetObject\<close>, \<open>HeadObject\<close>,
  \<open>Exists\<close>, \<open>Delete\<close>, \<open>Copy\<close> (as either key) and by \<open>Upload\<close> when a body is given, with
  an error that is \<open>ErrInvalidBlobKey\<close> and with the world, its log of calls included, left
  as it was. \<open>DeleteMultiple\<close>, while the context is not done, makes no call for such a
  key (its only calls are the removals of the paths of the keys that \<open>fullPath\<close> accepts)
  and reports it among the failed keys under one \<open>ErrBlobDeleteFailed\<close>. On the
  networked backend \<open>Upload\<close>, \<open>Download\<close>, \<open>GetObject\<close>, \<open>HeadObject\<close>, \<open>Exists\<close>,
  \<open>Delete\<close> and \<open>Copy\<close> reject the empty key in the same way and send every other key to
  the service as it is (\<open>Upload\<close> when a body is given); \<open>DeleteMultiple\<close> sends all its
  keys in its batches and tests none.
\<close>

theorem invalid_key_rejected:
  assumes "key = [] \<or> IsAbs key \<or> escapes key"
  shows "\<exists>e. err_is e ErrInvalidBlobKey
           \<and> Download f c key sk w = ((0, Some e), sk, w)
           \<and> GetObject f c key w = (Inl e, w)
           \<and> HeadObject f c key w = (Inl e, w)
           \<and> Exists f c key w = (Inl e, w)
           \<and> Delete f c key w = (Some e, w)
           \<and> Upload md5hex f c (upload_of key bytes) w = (Inl e, w)
           \<and> (\<exists>e1. err_is e1 ErrInvalidBlobKey \<and> Copy f c key other w = (Some e1, w))
           \<and> (\<exists>e2. err_is e2 ErrInvalidBlobKey \<and> Copy f c other key w = (Some e2, w))
           \<and> (done_at c = None \<and> key \<in> set keys \<longrightarrow>
                (\<exists>failedKeys. key \<in> set failedKeys
                   \<and> fst (DeleteMultiple f c keys w) =
                       (failedKeys,
                        Some (Annotated ErrBlobDeleteFailed
                                (Count (length failedKeys) ''files failed to delete'')))))
           \<and> (done_at c = None \<longrightarrow>
                log (snd (DeleteMultiple f c keys w)) = log w @ map SysRemove (paths_of f keys))
           \<and> paths_of f (key # keys) = paths_of f keys
           \<and> S3_Download s c [] sk cl = ((0, Some (Plain ErrInvalidBlobKey)), sk, cl)
           \<and> S3_GetObject s c [] cl = (Inl (Plain ErrInvalidBlobKey), cl)
           \<and> S3_HeadObject s c [] cl = (Inl (Plain ErrInvalidBlobKey), cl)
           \<and> S3_Exists s c [] cl = (Inl (Plain ErrInvalidBlobKey), cl)
           \<and> S3_Delete s c [] cl = (Some (Plain ErrInvalidBlobKey), cl)
           \<and> S3_Copy s c [] other cl = (Some (Plain ErrInvalidBlobKey), cl)
           \<and> S3_Copy s c other [] cl = (Some (Plain ErrInvalidBlobKey), cl)
           \<and> S3_Upload s c (input\<lparr> UKey := [] \<rparr>) cl = (Inl (Plain ErrInvalidBlobKey), cl)
           \<and> calls (snd (snd (S3_Download s c (k # ks) sk cl))) = calls cl @ [CallDownload (k # ks)]
           \<and> calls (snd (S3_GetObject s c (k # ks) cl)) = calls cl @ [CallGetObject (k # ks)]
           \<and> calls (snd (S3_HeadObject s c (k # ks) cl)) = calls cl @ [CallHeadObject (k # ks)]
           \<and> calls (snd (S3_Exists s c (k # ks) cl)) = calls cl @ [CallHeadObject (k # ks)]
           \<and> calls (snd (S3_Delete s c (k # ks) cl)) = calls cl @ [CallDeleteObject (k # ks)]
           \<and> calls (snd (S3_Upload s c (upload_of (k # ks) bytes) cl))
               = calls cl @ [CallUpload (k # ks)]
           \<and> calls (snd (S3_Copy s c (k # ks) (d # ds) cl))
               = calls cl @ [CallCopyObject (k # ks) (d # ds)]
           \<and> calls (snd (S3_DeleteMultiple s c keys cl))
               = calls cl @ map CallDeleteObjects (chunks maxKeysPerRequest keys)
           \<and> concat (chunks maxKeysPerRequest keys) = keys"
proof -
  from fullPath_rejects[OF assms] obtain e where
    e: "fullPath f key = Inl e" "err_is e ErrInvalidBlobKey" by blast
  have up: "Upload md5hex f c (upload_of key bytes) w = (Inl e, w)"
    by (rule fs_Upload_rejects[OF e(1)]) (simp_all add: upload_of_def)
  have s3up: "S3_Upload s c (input\<lparr> UKey := [] \<rparr>) cl = (Inl (Plain ErrInvalidBlobKey), cl)"
    by (rule s3_empty_key) simp
  have dm: "done_at c = None \<and> key \<in> set keys \<longrightarrow>
                (\<exists>failedKeys. key \<in> set failedKeys
                   \<and> fst (DeleteMultiple f c keys w) =
                       (failedKeys,
                        Some (Annotated ErrBlobDeleteFailed
                                (Count (length failedKeys) ''files failed to delete''))))"
  proof
    assume a: "done_at c = None \<and> key \<in> set keys"
    let ?F = "fst (delete_run f c keys [] w)"
    have m: "key \<in> set ?F" using delete_run_rejected[OF e] a by blast
    then have "?F \<noteq> []" by auto
    then have "fst (DeleteMultiple f c keys w) =
        (?F, Some (Annotated ErrBlobDeleteFailed (Count (length ?F) ''files failed to delete'')))"
      using a by (simp add: DeleteMultiple_run)
    with m show "\<exists>failedKeys. key \<in> set failedKeys
                   \<and> fst (DeleteMultiple f c keys w) =
                       (failedKeys,
                        Some (Annotated ErrBlobDeleteFailed
                                (Count (length failedKeys) ''files failed to delete'')))"
      by blast
  qed
  have dl: "done_at c = None \<longrightarrow>
                log (snd (DeleteMultiple f c keys w)) = log w @ map SysRemove (paths_of f keys)"
    by (simp add: DeleteMultiple_run delete_run_log)
  have po: "paths_of f (key # keys) = paths_of f keys" using e(1) by (simp add: paths_of_def)
  have sdm: "calls (snd (S3_DeleteMultiple s c keys cl))
               = calls cl @ map CallDeleteObjects (chunks maxKeysPerRequest keys)"
    by (simp add: S3_DeleteMultiple_batches batch_run_calls)
  have cc: "concat (chunks maxKeysPerRequest keys) = keys"
    by (rule concat_chunks) (simp add: maxKeysPerRequest_def)
  show ?thesis
    apply (rule exI[of _ e])
    apply (intro conjI)
    apply (rule e(2))
    apply (rule fs_rejects[OF e(1)])
    apply (rule fs_rejects[OF e(1)])
    apply (rule fs_rejects[OF e(1)])
    apply (rule fs_Exists_rejects[OF e])
    apply (rule fs_rejects[OF e(1)])
    apply (rule up)
    apply (rule fs_Copy_rejects[OF e])
    apply (rule fs_Copy_rejects[OF e])
    apply (rule dm)
    apply (rule dl)
    apply (rule po)
    apply (rule s3_empty_key(1-7))+
    apply (rule s3up)
    apply (rule s3_calls)+
    apply (rule s3_calls_more)+
    apply (rule sdm)
    apply (rule cc)
    done
qed

theorem invalid_key_rejected_witness:
  "escapes ''../secret''
   \<and> (\<exists>e. err_is e ErrInvalidBlobKey
        \<and> Download data_store background ''../secret'' empty_sink two_files
            = ((0, Some e), empty_sink, two_files)
        \<and> Delete data_store background ''../secret'' two_files = (Some e, two_files)
        \<and> Upload (\<lambda>b. b) data_store background (upload_of ''../secret'' ''x'') two_files
            = (Inl e, two_files))
   \<and> (\<exists>failedKeys. ''../secret'' \<in> set failedKeys
        \<and> fst (DeleteMultiple data_store background [''a'', ''../secret'', ''b''] two_files) =
             (failedKeys,
              Some (Annotated ErrBlobDeleteFailed
                      (Count (length failedKeys) ''files failed to delete''))))
   \<and> log (snd (DeleteMultiple data_store background [''a'', ''../secret'', ''b''] two_files))
       = [SysRemove ''/data/a'', SysRemove ''/data/b'']
   \<and> S3_Delete blob_bucket background [] two_objects = (Some (Plain ErrInvalidBlobKey), two_objects)"
proof -
  have esc: "escapes ''../secret''" by code_simp
  then have h: "''../secret'' = [] \<or> IsAbs ''../secret'' \<or> escapes ''../secret''" by simp
  have c: "done_at background = None" by (simp add: background_def)
  have m: "''../secret'' \<in> set [''a'', ''../secret'', ''b'']" by simp
  have p: "paths_of data_store [''a'', ''../secret'', ''b''] = [''/data/a'', ''/data/b'']"
    by code_simp
  have l: "log two_files = []" by (simp add: two_files_def)
  from invalid_key_rejected[OF h, where f = data_store and c = background and sk = empty_sink
      and w = two_files and ?md5hex = "\<lambda>b. b" and bytes = "''x''" and other = "[]"
      and keys = "[''a'', ''../secret'', ''b'']" and s = blob_bucket and cl = two_objects
      and input = "upload_of ''x'' ''x''"
      and k = "CHR ''a''" and ks = "[]" and d = "CHR ''a''" and ds = "[]"]
  show ?thesis using esc c m p l by auto
qed

text \<open>
  C1 as stated fails: the networked backend sends the key \<^verbatim>\<open>../secret\<close> to the service
  and answers what the service says (here that there is no such object); on the local
  backend \<open>DeleteMultiple\<close> reports the key under \<open>ErrBlobDeleteFailed\<close>, and \<open>Upload\<close>
  without a body answers \<open>ErrInvalidInput\<close>; \<open>DeleteMultiple\<close> of the networked backend
  sends even the empty key to the service.
\<close>

theorem invalid_key_rejected_counterexample:
  "escapes ''../secret''
   \<and> fst (S3_Download blob_bucket background ''../secret'' empty_sink two_objects)
       = (0, Some (Plain ErrBlobNotFound))
   \<and> calls (snd (snd (S3_Download blob_bucket background ''../secret'' empty_sink two_objects)))
       = [CallDownload ''../secret'']
   \<and> fst (S3_Upload blob_bucket background (upload_of ''../secret'' ''x'') two_objects)
       = Inr \<lparr> Location = ''https://blobs.s3.amazonaws.com/../secret'', VersionID = [],
               UETag = ''etag'' \<rparr>
   \<and> fst (DeleteMultiple data_store background [''../secret''] two_files)
       = ([''../secret''],
          Some (Annotated ErrBlobDeleteFailed (Count 1 ''files failed to delete'')))
   \<and> fst (Upload (\<lambda>b. b) data_store background
            \<lparr> UKey = ''../secret'', Body = None, UContentType = [], UMetadata = [] \<rparr> two_files)
       = Inl (Annotated ErrInvalidInput (Msg ''body is required''))
   \<and> fst (S3_DeleteMultiple blob_bucket background [[], ''../secret''] two_objects) = ([], None)
   \<and> calls (snd (S3_DeleteMultiple blob_bucket background [[], ''../secret''] two_objects))
       = [CallDeleteObjects [[], ''../secret'']]"
  by code_simp

subsection \<open>An upload that fails\<close>
















end
